theory Spec2Isabelle
  imports Complex_Main "HOL-Library.Sublist"
begin

section \<open>Numbers and the local tools of \<open>src/index.js\<close>\<close>

text \<open>
  A finite JavaScript number is modelled by the rational it denotes: every finite double
  is a rational, and the operations the tools use on it (\<open>+\<close>, \<open><\<close>, \<open>%\<close>, \<open>===\<close>) are
  taken in exact arithmetic. Comparison and \<open>%\<close> are exact on doubles too; \<open>+\<close> is exact
  where the sum is a double again, as for integers below \<open>2^53\<close>, and is rounded by the
  language otherwise, which is not modelled. \<open>NaN\<close> and the infinities are not of this
  type: \<open>js_number\<close> below adds them for the primality checker.
\<close>

type_synonym number = rat

text \<open>\<open>function sum(num1, num2) { return num1 + num2; }\<close>\<close>

definition sum_js :: "number \<Rightarrow> number \<Rightarrow> number" where
  "sum_js num1 num2 = num1 + num2"

text \<open>
  The remainder operator \<open>a % b\<close>: \<open>a - b * trunc (a / b)\<close>, the quotient rounded
  towards zero, so that the result has the sign of the dividend. The divisor is never
  zero where \<open>prime\<close> uses it.
\<close>

definition trunc :: "rat \<Rightarrow> int" where
  "trunc q = (if 0 \<le> q then \<lfloor>q\<rfloor> else \<lceil>q\<rceil>)"

definition js_rem :: "number \<Rightarrow> number \<Rightarrow> number" where
  "js_rem a b = a - b * of_int (trunc (a / b))"

text \<open>
  The loop guard \<open>i <= Math.sqrt(num)\<close> for an integer counter \<open>i\<close>, without the
  irrational square root: \<open>Math.sqrt\<close> of a negative number is \<open>NaN\<close> and the
  comparison is false; otherwise a counter that is not positive passes, and a positive one
  passes when its square does not exceed \<open>num\<close>.
\<close>

definition le_sqrt :: "int \<Rightarrow> number \<Rightarrow> bool" where
  "le_sqrt i num = (0 \<le> num \<and> (i \<le> 0 \<or> of_int i * of_int i \<le> num))"

text \<open>
  \<^verbatim>\<open>
  function prime(num) {
    if (num < 2) return false;
    for (let i = 2; i <= Math.sqrt(num); i++) {
      if (num % i === 0) return false;
    }
    return true;
  }
  \<close>
  \<open>prime_loop num i\<close> is the \<open>for\<close> loop entered with the counter at \<open>i\<close>.
\<close>

function prime_loop :: "number \<Rightarrow> int \<Rightarrow> bool" where
  "prime_loop num i =
     (if le_sqrt i num
      then (if js_rem num (of_int i) = 0 then False else prime_loop num (i + 1))
      else True)"
  by pat_completeness auto

lemma le_sqrt_le_floor: "le_sqrt i num \<Longrightarrow> i \<le> \<lfloor>num\<rfloor>"
proof -
  assume h: "le_sqrt i num"
  then have nonneg: "0 \<le> num" by (simp add: le_sqrt_def)
  show ?thesis
  proof (cases "i \<le> 0")
    case True
    with nonneg show ?thesis by (simp add: le_floor_iff)
  next
    case False
    then have pos: "1 \<le> i" by simp
    from h False have sq: "(of_int i :: rat) * of_int i \<le> num" by (simp add: le_sqrt_def)
    from pos have "i * 1 \<le> i * i" by (intro mult_left_mono) simp_all
    then have "(of_int i :: rat) \<le> of_int (i * i)" by (simp only: of_int_le_iff mult_1_right)
    with sq have "(of_int i :: rat) \<le> num" by simp
    then show ?thesis by (simp add: le_floor_iff)
  qed
qed

termination prime_loop
  by (relation "measure (\<lambda>(num, i). nat (\<lfloor>num\<rfloor> + 1 - i))")
     (use le_sqrt_le_floor in force)+

declare prime_loop.simps [simp del]

definition prime :: "number \<Rightarrow> bool" where
  "prime num = (if num < 2 then False else prime_loop num 2)"

text \<open>
  Every value of the type \<open>number\<close> of the language: the finite numbers, \<open>NaN\<close>,
  \<open>+Infinity\<close> and \<open>-Infinity\<close>.
\<close>

datatype js_number = Finite number | NaN | PosInf | NegInf

text \<open>
  \<open>prime\<close> on every value of the language. \<open>num < 2\<close> is false on \<open>NaN\<close> and on
  \<open>+Infinity\<close>. \<open>Math.sqrt\<close> is \<open>NaN\<close> on \<open>NaN\<close> and on \<open>-Infinity\<close>, where the guard
  fails, and \<open>+Infinity\<close> on \<open>+Infinity\<close>, where every counter passes it. \<open>num % i\<close> is
  \<open>NaN\<close> when \<open>num\<close> is not finite, and \<open>NaN === 0\<close> is false. The loop is the loop of the
  source, which need not end: \<open>None\<close> is a call that never returns.
\<close>

definition less_two :: "js_number \<Rightarrow> bool" where
  "less_two x = (case x of Finite q \<Rightarrow> q < 2 | NegInf \<Rightarrow> True | _ \<Rightarrow> False)"

definition le_sqrt_js :: "int \<Rightarrow> js_number \<Rightarrow> bool" where
  "le_sqrt_js i x = (case x of Finite q \<Rightarrow> le_sqrt i q | PosInf \<Rightarrow> True | _ \<Rightarrow> False)"

definition rem_is_zero :: "js_number \<Rightarrow> int \<Rightarrow> bool" where
  "rem_is_zero x i = (case x of Finite q \<Rightarrow> js_rem q (of_int i) = 0 | _ \<Rightarrow> False)"

partial_function (option) prime_loop_js :: "js_number \<Rightarrow> int \<Rightarrow> bool option" where
  "prime_loop_js x i =
     (if le_sqrt_js i x
      then (if rem_is_zero x i then Some False else prime_loop_js x (i + 1))
      else Some True)"

definition prime_js :: "js_number \<Rightarrow> bool option" where
  "prime_js x = (if less_two x then Some False else prime_loop_js x 2)"

text \<open>For stating what the checker is given: a finite number, an integer, a number from 2 on.\<close>

definition is_integer :: "js_number \<Rightarrow> bool" where
  "is_integer x = (case x of Finite q \<Rightarrow> q \<in> \<int> | _ \<Rightarrow> False)"

definition at_least_two :: "js_number \<Rightarrow> bool" where
  "at_least_two x = (case x of Finite q \<Rightarrow> 2 \<le> q | PosInf \<Rightarrow> True | _ \<Rightarrow> False)"

definition is_finite :: "js_number \<Rightarrow> bool" where
  "is_finite x = (case x of Finite q \<Rightarrow> True | _ \<Rightarrow> False)"

section \<open>Strings and regular expressions\<close>

text \<open>
  A message is a list of characters; a \<open>char\<close> stands for a UTF-16 code unit below
  \<open>U+0100\<close>. \<open>toLowerCase\<close> maps \<open>A\<close>--\<open>Z\<close> and the capital letters of the Latin-1
  block (\<open>U+00C0\<close>--\<open>U+00DE\<close> without the multiplication sign \<open>U+00D7\<close>) 32 places up.
  \<open>toUpperCase\<close> is applied by the source to coin names only, which are made of
  \<open>a\<close>--\<open>z\<close>, digits and \<open>-\<close>; it is modelled on \<open>a\<close>--\<open>z\<close>.
\<close>

definition lower_char :: "char \<Rightarrow> char" where
  "lower_char c =
     (let n = (of_char c :: nat)
      in if (65 \<le> n \<and> n \<le> 90) \<or> (192 \<le> n \<and> n \<le> 222 \<and> n \<noteq> 215)
         then char_of (n + 32) else c)"

definition toLowerCase :: "string \<Rightarrow> string" where
  "toLowerCase s = map lower_char s"

definition upper_char :: "char \<Rightarrow> char" where
  "upper_char c =
     (let n = (of_char c :: nat)
      in if 97 \<le> n \<and> n \<le> 122 then char_of (n - 32) else c)"

definition toUpperCase :: "string \<Rightarrow> string" where
  "toUpperCase s = map upper_char s"

text \<open>\<open>s.includes(t)\<close>: \<open>t\<close> occurs in \<open>s\<close> as a block of consecutive characters.\<close>

definition includes_str :: "string \<Rightarrow> string \<Rightarrow> bool" where
  "includes_str s t = sublist t s"

text \<open>The character classes of the four regular expressions of the source.\<close>

definition is_digit :: "char \<Rightarrow> bool" where
  "is_digit c = (48 \<le> (of_char c :: nat) \<and> (of_char c :: nat) \<le> 57)"

text \<open>
  \<open>\s\<close> below \<open>U+0100\<close>: tab, line feed, vertical tab, form feed, carriage return,
  space and the no-break space.
\<close>

definition is_space :: "char \<Rightarrow> bool" where
  "is_space c = ((of_char c :: nat) \<in> {9, 10, 11, 12, 13, 32, 160})"

text \<open>\<open>[a-z0-9-]\<close>\<close>

definition is_coin_char :: "char \<Rightarrow> bool" where
  "is_coin_char c =
     (let n = (of_char c :: nat)
      in (97 \<le> n \<and> n \<le> 122) \<or> (48 \<le> n \<and> n \<le> 57) \<or> n = 45)"

text \<open>
  The fragment of JavaScript's regular expressions the source uses: single characters
  and classes, concatenation, the greedy quantifiers \<open>?\<close>, \<open>*\<close> and \<open>+\<close>, and
  capturing groups (a non-capturing group \<open>(?:r)\<close> is \<open>r\<close> itself).
\<close>

datatype regex =
    Eps
  | Atom "char \<Rightarrow> bool"
  | Seq regex regex
  | Opt regex
  | Star regex
  | Plus regex
  | Group nat regex

text \<open>
  A matcher state is the input still to be read and the captures made so far, the
  latest first. \<open>run r st\<close> lists the states in which a match of \<open>r\<close> started in \<open>st\<close>
  can end, in the order in which the backtracking matcher of the language tries them: a
  greedy quantifier tries one more iteration before it tries to stop, and an iteration
  of \<open>*\<close> that reads nothing is rejected. \<open>star_iter f k\<close> iterates the step \<open>f\<close>; every
  iteration it keeps reads at least one character, so \<open>k\<close> iterations are enough for an
  input of \<open>k\<close> characters.
\<close>

type_synonym captures = "(nat \<times> string) list"
type_synonym mstate = "string \<times> captures"

fun star_iter :: "(mstate \<Rightarrow> mstate list) \<Rightarrow> nat \<Rightarrow> mstate \<Rightarrow> mstate list" where
  "star_iter f 0 st = [st]"
| "star_iter f (Suc k) st =
     concat (map (star_iter f k)
       (filter (\<lambda>st'. length (fst st') < length (fst st)) (f st))) @ [st]"

primrec run :: "regex \<Rightarrow> mstate \<Rightarrow> mstate list" where
  "run Eps = (\<lambda>st. [st])"
| "run (Atom p) = (\<lambda>st.
     case fst st of [] \<Rightarrow> [] | x # xs \<Rightarrow> if p x then [(xs, snd st)] else [])"
| "run (Seq r1 r2) = (\<lambda>st. concat (map (run r2) (run r1 st)))"
| "run (Opt r) = (\<lambda>st. run r st @ [st])"
| "run (Star r) = (\<lambda>st. star_iter (run r) (length (fst st)) st)"
| "run (Plus r) = (\<lambda>st.
     concat (map (\<lambda>st'. star_iter (run r) (length (fst st')) st') (run r st)))"
| "run (Group n r) = (\<lambda>st.
     map (\<lambda>st'. (fst st', (n, take (length (fst st) - length (fst st')) (fst st)) # snd st'))
       (run r st))"

text \<open>
  \<open>text.match(re)\<close> for a regular expression without the \<open>g\<close> flag: the match found
  first at the leftmost position where there is one, or \<open>null\<close>. The result gives the
  captures; \<open>m[k]\<close> is \<open>capture m k\<close>.
\<close>

definition match_here :: "regex \<Rightarrow> string \<Rightarrow> captures option" where
  "match_here r s = (case run r (s, []) of [] \<Rightarrow> None | st # _ \<Rightarrow> Some (snd st))"

fun match_str :: "string \<Rightarrow> regex \<Rightarrow> captures option" where
  "match_str [] r = match_here r []"
| "match_str (x # xs) r =
     (case match_here r (x # xs) of Some m \<Rightarrow> Some m | None \<Rightarrow> match_str xs r)"

definition capture :: "captures \<Rightarrow> nat \<Rightarrow> string" where
  "capture m k = (case map_of m k of Some s \<Rightarrow> s | None \<Rightarrow> [])"

text \<open>A literal character and a literal word.\<close>

definition chr :: "char \<Rightarrow> regex" where
  "chr c = Atom (\<lambda>x. x = c)"

fun word :: "string \<Rightarrow> regex" where
  "word [] = Eps"
| "word [c] = chr c"
| "word (c # cs) = Seq (chr c) (word cs)"

text \<open>\<open>-?\d+(?:\.\d+)?\<close>\<close>

definition number_re :: regex where
  "number_re =
     Seq (Opt (chr CHR ''-''))
       (Seq (Plus (Atom is_digit)) (Opt (Seq (chr CHR ''.'') (Plus (Atom is_digit)))))"

text \<open>\<open>/(-?\d+(?:\.\d+)?)\s*\+\s*(-?\d+(?:\.\d+)?)/\<close>\<close>

definition sum_re :: regex where
  "sum_re =
     Seq (Group 1 number_re)
       (Seq (Star (Atom is_space))
         (Seq (chr CHR ''+'') (Seq (Star (Atom is_space)) (Group 2 number_re))))"

text \<open>\<open>/(-?\d+(?:\.\d+)?)/\<close>\<close>

definition prime_re :: regex where
  "prime_re = Group 1 number_re"

text \<open>\<open>/price\s+of\s+([a-z0-9-]+)/\<close> and \<open>/([a-z0-9-]+)\s+price/\<close>\<close>

definition price_of_re :: regex where
  "price_of_re =
     Seq (word ''price'')
       (Seq (Plus (Atom is_space))
         (Seq (word ''of'') (Seq (Plus (Atom is_space)) (Group 1 (Plus (Atom is_coin_char))))))"

definition coin_price_re :: regex where
  "coin_price_re =
     Seq (Group 1 (Plus (Atom is_coin_char))) (Seq (Plus (Atom is_space)) (word ''price''))"








section \<open>Numbers and text\<close>

text \<open>
  \<open>Number(s)\<close> on the texts the regular expressions capture: an optional minus sign,
  decimal digits and an optional fraction. The value is the decimal number written. The
  language rounds that number to the nearest double, and to \<open>Infinity\<close> from about 309
  digits on; the rounding is not modelled, so the value is the one of the language where
  the decimal written is a double itself, as for every integer of at most 15 digits.
\<close>

definition digit_value :: "char \<Rightarrow> nat" where
  "digit_value c = of_char c - 48"

definition digits_value :: "string \<Rightarrow> nat" where
  "digits_value ds = foldl (\<lambda>a c. 10 * a + digit_value c) 0 ds"

definition Number :: "string \<Rightarrow> number" where
  "Number s =
     (let neg = (s \<noteq> [] \<and> hd s = CHR ''-'');
          body = (if neg then tl s else s);
          ip = takeWhile (\<lambda>c. c \<noteq> CHR ''.'') body;
          fp = drop (length ip + 1) body;
          v = of_nat (digits_value ip) + of_nat (digits_value fp) / 10 ^ length fp
      in if neg then - v else v)"

text \<open>
  The text of a number in a template literal, in exact arithmetic: an integer is written
  with its decimal digits, and a number with a fraction with the digits of its decimal
  expansion, which is finite for every captured number and every sum of two. The language
  prints the shortest digits that read back as the same double, and uses the exponent
  notation from \<open>1e21\<close> on and below \<open>1e-6\<close>: neither is modelled, so the text is the one
  of the language on the integers below \<open>2^53\<close> and on the numbers whose decimal expansion
  is that shortest text, as for a price with a few decimals.
\<close>

definition digit_char :: "nat \<Rightarrow> char" where
  "digit_char d = ''0123456789'' ! d"

function nat_digits :: "nat \<Rightarrow> string" where
  "nat_digits n = (if n < 10 then [digit_char n] else nat_digits (n div 10) @ [digit_char (n mod 10)])"
  by pat_completeness auto

termination nat_digits
  by (relation "measure id") auto

declare nat_digits.simps [simp del]

fun frac_digits :: "nat \<Rightarrow> rat \<Rightarrow> string" where
  "frac_digits 0 r = []"
| "frac_digits (Suc k) r =
     (if r = 0 then []
      else digit_char (nat \<lfloor>r * 10\<rfloor>) # frac_digits k (r * 10 - of_int \<lfloor>r * 10\<rfloor>))"

definition ToString :: "number \<Rightarrow> string" where
  "ToString q =
     (let a = \<bar>q\<bar>; f = a - of_int \<lfloor>a\<rfloor>
      in (if q < 0 then ''-'' else []) @ nat_digits (nat \<lfloor>a\<rfloor>) @
         (if f = 0 then [] else ''.'' @ frac_digits (nat (snd (quotient_of q))) f))"



section \<open>The offline responder\<close>

text \<open>A thrown value, with its message.\<close>

datatype error = Error string

text \<open>The argument objects \<open>{num1, num2}\<close>, \<open>{number}\<close> and \<open>{coin}\<close>.\<close>

record sum_args =
  num1 :: number
  num2 :: number

record prime_args =
  number :: number

record coin_args =
  coin :: string

text \<open>
  The \<open>toolCall\<close> object \<open>{name, args}\<close> of a reply. The orchestrator reports the
  arguments it parsed from the provider's text: \<open>ParsedArgs a\<close> is \<open>JSON.parse(a)\<close>.
\<close>

datatype tool_args =
    SumArgs sum_args
  | PrimeArgs prime_args
  | CoinArgs coin_args
  | ParsedArgs string

record tool_info =
  name :: string
  args :: tool_args

record demo_reply =
  demo_text :: string
  demo_toolCall :: "tool_info option"

text \<open>
  The price index: the response of \<open>fetch\<close>, with its \<open>ok\<close> flag and the outcome of
  \<open>response.json()\<close>. Of the payload the source reads \<open>price?.[coin]?.usd\<close>: a payload is
  the partial map from a coin to that number.
\<close>

type_synonym price_json = "string \<Rightarrow> number option"

record http_response =
  ok :: bool
  json :: "error + price_json"

text \<open>
  A message of the transcript. An assistant message carries its content, which is
  absent (\<open>null\<close>) on a tool request, and the invocations it requests.
\<close>

record tool_call =
  call_id :: string
  fn_name :: string
  fn_arguments :: string

datatype message =
    System string
  | User string
  | Assistant "string option" "tool_call list"
  | Tool string string

record completion =
  content :: "string option"
  tool_calls :: "tool_call list"

text \<open>
  The collaborators of one request. \<open>GROQ_API_KEY\<close>: the variable is set and not empty.
  \<open>fetch coin\<close>: the request to the price index for \<open>coin\<close>, or the error it throws.
  \<open>create messages with_tools\<close>: \<open>groq.chat.completions.create\<close> on the transcript, with
  or without the tool catalogue, followed by \<open>.choices[0].message\<close>; an error when either
  throws. \<open>invoke toolCall\<close>: the outcome of lines 250 to 257 and of \<open>JSON.stringify\<close> in
  line 266 of \<open>runAgent\<close>, that is of parsing the arguments of the invocation, looking its
  name up in \<open>availableTools\<close>, awaiting the tool and serialising the result; an error
  when one of them throws. The arguments are whatever the provider sent, and what the
  tools compute on values that are not of the declared types is left to the language;
  the orchestrator does not look at the result, it only passes it on.
\<close>

record env =
  GROQ_API_KEY :: bool
  fetch :: "string \<Rightarrow> error + http_response"
  create :: "message list \<Rightarrow> bool \<Rightarrow> error + completion"
  invoke :: "tool_call \<Rightarrow> error + string"

text \<open>
  The state of the process: the transcript \<open>History\<close>, whether the provider's client
  has been constructed (\<open>groqClient\<close>), and \<open>calls\<close>, which is not a variable of the
  source: it records the calls made to the collaborators, in order.
\<close>

datatype call =
    Fetch string
  | Create "message list" bool
  | Invoke tool_call

record server =
  History :: "message list"
  groqClient :: bool
  calls :: "call list"

definition system_instruction :: string where
  "system_instruction =
     ''You are an AI robot agent that can optionally call tools to do math, check if a number is prime, or fetch crypto prices. '' @
     ''When you use tools, clearly explain what you did and include the result in natural language.''"

definition initial :: server where
  "initial = \<lparr>History = [System system_instruction], groqClient = False, calls = []\<rparr>"

definition getcryptoprice :: "env \<Rightarrow> string \<Rightarrow> server \<Rightarrow> (error + price_json) \<times> server" where
  "getcryptoprice env c st =
     (let st' = st\<lparr>calls := calls st @ [Fetch c]\<rparr>
      in case fetch env c of
           Inl e \<Rightarrow> (Inl e, st')
         | Inr response \<Rightarrow>
             if \<not> ok response then (Inl (Error (''Failed to fetch price for '' @ c)), st')
             else (json response, st'))"

definition parseTwoNumbersForSum :: "string \<Rightarrow> sum_args option" where
  "parseTwoNumbersForSum msg =
     (case match_str msg sum_re of
        None \<Rightarrow> None
      | Some m \<Rightarrow> Some \<lparr>num1 = Number (capture m 1), num2 = Number (capture m 2)\<rparr>)"

definition parseNumberForPrime :: "string \<Rightarrow> prime_args option" where
  "parseNumberForPrime msg =
     (case match_str msg prime_re of
        None \<Rightarrow> None
      | Some m \<Rightarrow> Some \<lparr>number = Number (capture m 1)\<rparr>)"

definition parseCoinForPrice :: "string \<Rightarrow> coin_args option" where
  "parseCoinForPrice msg =
     (let t = toLowerCase msg
      in if includes_str t ''bitcoin'' \<or> includes_str t ''btc'' then Some \<lparr>coin = ''bitcoin''\<rparr>
         else if includes_str t ''ethereum'' \<or> includes_str t ''eth'' then Some \<lparr>coin = ''ethereum''\<rparr>
         else (case (case match_str t price_of_re of
                       Some m \<Rightarrow> Some m
                     | None \<Rightarrow> match_str t coin_price_re) of
                 Some m \<Rightarrow> Some \<lparr>coin = capture m 1\<rparr>
               | None \<Rightarrow> None))"

definition help_text :: string where
  "help_text =
     ''Offline demo mode is active because GROQ_API_KEY is not set.\<newline>'' @
     ''Try:\<newline>'' @
     ''- Calculate 1234 + 5678\<newline>'' @
     ''- Is 9973 prime?\<newline>'' @
     ''- Bitcoin price\<newline>'' @
     ''\<newline>To enable full AI chat, add GROQ_API_KEY to a .env file and restart the server.''"

definition price_text :: "string \<Rightarrow> number \<Rightarrow> string" where
  "price_text c usd = toUpperCase c @ '' price: $'' @ ToString usd @ '' USD''"

definition no_price_text :: "string \<Rightarrow> string" where
  "no_price_text c =
     ''I couldn't find a USD price for '' @ [CHR 0x22] @ c @ [CHR 0x22] @ ''. Try: bitcoin, ethereum.''"

text \<open>
  \<open>runOfflineDemo\<close>: the three intents are tried in the order sum, prime, price; an
  intent whose keyword test or whose parser fails falls through to the next, and the
  last to the help text.
\<close>

definition runOfflineDemo :: "env \<Rightarrow> string \<Rightarrow> server \<Rightarrow> (error + demo_reply) \<times> server" where
  "runOfflineDemo env userMessage st =
     (let lower = toLowerCase userMessage
      in case parseTwoNumbersForSum userMessage of
           Some sumArgs \<Rightarrow>
             (let result = sum_js (num1 sumArgs) (num2 sumArgs)
              in (Inr \<lparr>demo_text = ''Result: '' @ ToString (num1 sumArgs) @ '' + '' @
                          ToString (num2 sumArgs) @ '' = '' @ ToString result,
                        demo_toolCall = Some \<lparr>name = ''sum'', args = SumArgs sumArgs\<rparr>\<rparr>, st))
         | None \<Rightarrow>
            (case (if includes_str lower ''prime'' then parseNumberForPrime userMessage else None) of
               Some primeArgs \<Rightarrow>
                 (let isPrime = prime (number primeArgs)
                  in (Inr \<lparr>demo_text = ToString (number primeArgs) @ '' is '' @
                              (if isPrime then [] else ''not '') @ ''a prime number.'',
                            demo_toolCall =
                              Some \<lparr>name = ''check_prime_number'', args = PrimeArgs primeArgs\<rparr>\<rparr>, st))
             | None \<Rightarrow>
                (case (if includes_str lower ''price'' \<or> includes_str lower ''crypto'' \<or>
                          includes_str lower ''bitcoin'' \<or> includes_str lower ''ethereum''
                       then parseCoinForPrice userMessage else None) of
                   Some coinArgs \<Rightarrow>
                     (case getcryptoprice env (coin coinArgs) st of
                        (Inl e, st') \<Rightarrow> (Inl e, st')
                      | (Inr price, st') \<Rightarrow>
                          (Inr \<lparr>demo_text =
                                  (case price (coin coinArgs) of
                                     Some usd \<Rightarrow> price_text (coin coinArgs) usd
                                   | None \<Rightarrow> no_price_text (coin coinArgs)),
                                demo_toolCall =
                                  Some \<lparr>name = ''get_crypto_price'', args = CoinArgs coinArgs\<rparr>\<rparr>, st'))
                 | None \<Rightarrow> (Inr \<lparr>demo_text = help_text, demo_toolCall = None\<rparr>, st))))"

section \<open>The orchestrator\<close>

text \<open>
  \<open>getGroqClient\<close> returns the client constructed before; without one it returns
  \<open>null\<close> when the key is missing, and constructs the client otherwise. The result is
  whether a client was returned.
\<close>

definition getGroqClient :: "env \<Rightarrow> server \<Rightarrow> bool \<times> server" where
  "getGroqClient env st =
     (if groqClient st then (True, st)
      else if \<not> GROQ_API_KEY env then (False, st)
      else (True, st\<lparr>groqClient := True\<rparr>))"

text \<open>\<open>History.push(m)\<close>\<close>

definition push :: "message \<Rightarrow> server \<Rightarrow> server" where
  "push m st = st\<lparr>History := History st @ [m]\<rparr>"

text \<open>A completion request on the transcript as it stands, and a tool invocation.\<close>

definition request :: "env \<Rightarrow> bool \<Rightarrow> server \<Rightarrow> (error + completion) \<times> server" where
  "request env with_tools st =
     (create env (History st) with_tools,
      st\<lparr>calls := calls st @ [Create (History st) with_tools]\<rparr>)"

definition execute :: "env \<Rightarrow> tool_call \<Rightarrow> server \<Rightarrow> (error + string) \<times> server" where
  "execute env toolCall st = (invoke env toolCall, st\<lparr>calls := calls st @ [Invoke toolCall]\<rparr>)"

text \<open>\<open>message?.content\<close> as a condition: the content is present and not empty.\<close>

definition truthy :: "string option \<Rightarrow> bool" where
  "truthy c = (case c of None \<Rightarrow> False | Some s \<Rightarrow> s \<noteq> [])"

record agent_reply =
  result_text :: "string option"
  result_toolCall :: "tool_info option"

definition runAgent :: "env \<Rightarrow> string \<Rightarrow> server \<Rightarrow> (error + agent_reply) \<times> server" where
  "runAgent env userMessage st0 =
     (case getGroqClient env st0 of
        (False, st1) \<Rightarrow> (Inl (Error ''GROQ_API_KEY is not configured on the server.''), st1)
      | (True, st1) \<Rightarrow>
         (case request env True (push (User userMessage) st1) of
            (Inl e, st2) \<Rightarrow> (Inl e, st2)
          | (Inr message, st2) \<Rightarrow>
             (case tool_calls message of
                toolCall # _ \<Rightarrow>
                  (case execute env toolCall st2 of
                     (Inl e, st3) \<Rightarrow> (Inl e, st3)
                   | (Inr result, st3) \<Rightarrow>
                      (case request env False
                              (push (Tool (call_id toolCall) result)
                                (push (Assistant (content message) (tool_calls message)) st3)) of
                         (Inl e, st4) \<Rightarrow> (Inl e, st4)
                       | (Inr finalMessage, st4) \<Rightarrow>
                           (Inr \<lparr>result_text = content finalMessage,
                                 result_toolCall =
                                   Some \<lparr>name = fn_name toolCall,
                                         args = ParsedArgs (fn_arguments toolCall)\<rparr>\<rparr>,
                            if truthy (content finalMessage)
                            then push (Assistant (content finalMessage) []) st4 else st4)))
              | [] \<Rightarrow>
                  (Inr \<lparr>result_text = content message, result_toolCall = None\<rparr>,
                   if truthy (content message)
                   then push (Assistant (content message) []) st2 else st2))))"

section \<open>The routes\<close>

text \<open>
  A parsed request body. An object lists its members in the order of the text; of two
  members with one key \<open>JSON.parse\<close> keeps the later.
\<close>

datatype json =
    JNull
  | JBool bool
  | JNum number
  | JStr string
  | JArr "json list"
  | JObj "(string \<times> json) list"

text \<open>
  \<open>const { message } = req.body || {};\<close> is a member of an object only: a body that is
  missing or falsy is replaced by \<open>{}\<close>, and no other value has the property.
\<close>

definition message_field :: "json option \<Rightarrow> json option" where
  "message_field body =
     (case body of Some (JObj members) \<Rightarrow> map_of (rev members) ''message'' | _ \<Rightarrow> None)"

datatype payload =
    ErrorBody string
  | ChatBody "string option" "tool_info option"

record response =
  status :: nat
  payload :: payload

definition fallback_note :: string where
  "fallback_note =
     ''\<newline>\<newline>[Note: Groq API call failed; you are seeing the offline/tool-based fallback response instead.]''"

definition safeMessage :: "error \<Rightarrow> string" where
  "safeMessage err =
     (case err of Error m \<Rightarrow>
        if m \<noteq> [] then m else ''Internal server error while processing the AI request.'')"

text \<open>
  \<open>chatHandler\<close>. The test \<open>!message || typeof message !== "string"\<close> lets through a
  string that is not empty, and nothing else.
\<close>

definition chatHandler :: "env \<Rightarrow> json option \<Rightarrow> server \<Rightarrow> response \<times> server" where
  "chatHandler env body st =
     (let bad = (\<lparr>status = 400,
                  payload = ErrorBody ''Missing 'message' field in request body.''\<rparr>, st)
      in case message_field body of
           Some (JStr message) \<Rightarrow>
             if message = [] then bad
             else if \<not> GROQ_API_KEY env then
               (case runOfflineDemo env message st of
                  (Inr demo, st') \<Rightarrow>
                    (\<lparr>status = 200,
                      payload = ChatBody (Some (demo_text demo)) (demo_toolCall demo)\<rparr>, st')
                | (Inl err, st') \<Rightarrow>
                    (\<lparr>status = 500, payload = ErrorBody ''Offline demo failed.''\<rparr>, st'))
             else
               (case runAgent env message st of
                  (Inr result, st') \<Rightarrow>
                    (\<lparr>status = 200,
                      payload = ChatBody (result_text result) (result_toolCall result)\<rparr>, st')
                | (Inl err, st') \<Rightarrow>
                    (case runOfflineDemo env message st' of
                       (Inr demo, st'') \<Rightarrow>
                         (\<lparr>status = 200,
                           payload = ChatBody (Some (demo_text demo @ fallback_note))
                                       (demo_toolCall demo)\<rparr>, st'')
                     | (Inl fallbackErr, st'') \<Rightarrow>
                         (\<lparr>status = 500, payload = ErrorBody (safeMessage err)\<rparr>, st'')))
         | _ \<Rightarrow> bad)"

text \<open>\<open>app.post("/chat", chatHandler); app.post("/api/chat", chatHandler);\<close>\<close>

definition post :: "string \<Rightarrow> (env \<Rightarrow> json option \<Rightarrow> server \<Rightarrow> response \<times> server) option" where
  "post path =
     (if path = ''/chat'' then Some chatHandler
      else if path = ''/api/chat'' then Some chatHandler
      else None)"

text \<open>Requests handled one after the other, each with its own collaborators.\<close>

fun serve :: "(env \<times> json option) list \<Rightarrow> server \<Rightarrow> server" where
  "serve [] st = st"
| "serve ((env, body) # reqs) st = serve reqs (snd (chatHandler env body st))"

text \<open>
  The steps in which the handlers touch the state of the process. Requests that are
  served at the same time interleave at their \<open>await\<close>s, between which a handler runs
  alone: whatever the interleaving, the state goes through a sequence of these steps. The
  only statement of the source that changes the transcript is \<open>History.push\<close>; a
  completion request reads it. \<open>pushed\<close> lists the messages a sequence of steps pushes.
\<close>

datatype operation =
    Push message
  | Request env bool
  | Execute env tool_call
  | GetGroqClient env
  | GetCryptoPrice env string

definition apply_op :: "operation \<Rightarrow> server \<Rightarrow> server" where
  "apply_op op st =
     (case op of
        Push m \<Rightarrow> push m st
      | Request env with_tools \<Rightarrow> snd (request env with_tools st)
      | Execute env toolCall \<Rightarrow> snd (execute env toolCall st)
      | GetGroqClient env \<Rightarrow> snd (getGroqClient env st)
      | GetCryptoPrice env c \<Rightarrow> snd (getcryptoprice env c st))"

fun apply_ops :: "operation list \<Rightarrow> server \<Rightarrow> server" where
  "apply_ops [] st = st"
| "apply_ops (op # ops) st = apply_ops ops (apply_op op st)"

fun pushed :: "operation list \<Rightarrow> message list" where
  "pushed [] = []"
| "pushed (Push m # ops) = m # pushed ops"
| "pushed (_ # ops) = pushed ops"

section \<open>Collaborators for the examples\<close>

text \<open>No key; the price index and the provider cannot be reached.\<close>

definition no_network :: env where
  "no_network =
     \<lparr>GROQ_API_KEY = False,
      fetch = (\<lambda>c. Inl (Error ''fetch failed'')),
      create = (\<lambda>h w. Inl (Error ''Connection error.'')),
      invoke = (\<lambda>c. Inl (Error ''tool failed''))\<rparr>"

text \<open>No key; the price index answers with a price for two coins.\<close>

definition price_index :: env where
  "price_index =
     \<lparr>GROQ_API_KEY = False,
      fetch = (\<lambda>c. Inr \<lparr>ok = True,
                         json = Inr [''bitcoin'' \<mapsto> 65000, ''ethereum'' \<mapsto> 3000]\<rparr>),
      create = (\<lambda>h w. Inl (Error ''Connection error.'')),
      invoke = (\<lambda>c. Inl (Error ''tool failed''))\<rparr>"

text \<open>The request body \<open>{"message": m}\<close>.\<close>

definition chat_body :: "string \<Rightarrow> json option" where
  "chat_body m = Some (JObj [(''message'', JStr m)])"

text \<open>
  For stating what a failed request leaves behind: the error with which a recorded call
  ended, if it failed.
\<close>

definition failure :: "env \<Rightarrow> call \<Rightarrow> error option" where
  "failure env c =
     (case c of
        Create h w \<Rightarrow> (case create env h w of Inl e \<Rightarrow> Some e | Inr m \<Rightarrow> None)
      | Invoke t \<Rightarrow> (case invoke env t of Inl e \<Rightarrow> Some e | Inr r \<Rightarrow> None)
      | Fetch k \<Rightarrow>
          (case fetch env k of
             Inl e \<Rightarrow> Some e
           | Inr r \<Rightarrow>
               if \<not> ok r then Some (Error (''Failed to fetch price for '' @ k))
               else (case json r of Inl e \<Rightarrow> Some e | Inr p \<Rightarrow> None)))"

text \<open>A key is set; neither the provider nor the price index can be reached.\<close>

definition provider_down :: env where
  "provider_down =
     \<lparr>GROQ_API_KEY = True,
      fetch = (\<lambda>c. Inl (Error ''fetch failed'')),
      create = (\<lambda>h w. Inl (Error ''Connection error.'')),
      invoke = (\<lambda>c. Inl (Error ''tool failed''))\<rparr>"

text \<open>
  A key is set; the provider asks for two invocations in the first round and answers in
  plain text in the second.
\<close>

definition sum_call :: tool_call where
  \<open>sum_call = \<lparr>call_id = ''call_1'', fn_name = ''sum'', fn_arguments = ''{"num1": 2, "num2": 3}''\<rparr>\<close>

definition prime_call :: tool_call where
  \<open>prime_call =
     \<lparr>call_id = ''call_2'', fn_name = ''check_prime_number'', fn_arguments = ''{"number": 5}''\<rparr>\<close>

definition tool_provider :: env where
  "tool_provider =
     \<lparr>GROQ_API_KEY = True,
      fetch = (\<lambda>c. Inl (Error ''fetch failed'')),
      create = (\<lambda>h w. if w then Inr \<lparr>content = None, tool_calls = [sum_call, prime_call]\<rparr>
                       else Inr \<lparr>content = Some ''2 + 3 = 5'', tool_calls = []\<rparr>),
      invoke = (\<lambda>c. if c = sum_call then Inr ''5'' else Inl (Error ''tool failed''))\<rparr>"

text \<open>
  A key is set; the provider asks for two invocations in the first round and cannot be
  reached in the second.
\<close>

definition second_round_down :: env where
  "second_round_down =
     \<lparr>GROQ_API_KEY = True,
      fetch = (\<lambda>c. Inl (Error ''fetch failed'')),
      create = (\<lambda>h w. if w then Inr \<lparr>content = None, tool_calls = [sum_call, prime_call]\<rparr>
                       else Inl (Error ''Connection error.'')),
      invoke = (\<lambda>c. if c = sum_call then Inr ''5'' else Inl (Error ''tool failed''))\<rparr>"

text \<open>A key is set; the provider asks for two invocations and the tool layer fails.\<close>

definition tool_down :: env where
  "tool_down =
     \<lparr>GROQ_API_KEY = True,
      fetch = (\<lambda>c. Inl (Error ''fetch failed'')),
      create = (\<lambda>h w. if w then Inr \<lparr>content = None, tool_calls = [sum_call, prime_call]\<rparr>
                       else Inr \<lparr>content = Some ''2 + 3 = 5'', tool_calls = []\<rparr>),
      invoke = (\<lambda>c. Inl (Error ''tool failed''))\<rparr>"

section \<open>The primality checker\<close>

text \<open>The guard of the model is the source's comparison with the real square root.\<close>

lemma le_sqrt_real:
  assumes "0 \<le> num"
  shows "le_sqrt i num = (real_of_int i \<le> sqrt (real_of_rat num))"
proof (cases "i \<le> 0")
  case True
  have "0 \<le> sqrt (real_of_rat num)" using assms by (simp add: zero_le_of_rat_iff)
  moreover have "real_of_int i \<le> 0" using True by simp
  ultimately have "real_of_int i \<le> sqrt (real_of_rat num)" by linarith
  with True assms show ?thesis by (simp add: le_sqrt_def)
next
  case False
  then have ipos: "0 \<le> real_of_int i" by simp
  have "(real_of_int i \<le> sqrt (real_of_rat num)) = ((real_of_int i)\<^sup>2 \<le> real_of_rat num)"
    using ipos by (metis abs_of_nonneg real_le_rsqrt real_sqrt_abs real_sqrt_le_iff)
  also have "\<dots> = (real_of_rat (of_int i * of_int i) \<le> real_of_rat num)"
    by (simp add: power2_eq_square of_rat_mult)
  also have "\<dots> = ((of_int i :: rat) * of_int i \<le> num)"
    by (simp only: of_rat_less_eq)
  finally show ?thesis using False assms by (simp add: le_sqrt_def)
qed

text \<open>On integers, \<open>%\<close> is the integer remainder.\<close>

lemma js_rem_of_int:
  assumes "0 \<le> n" and "0 < i"
  shows "js_rem (of_int n) (of_int i) = of_int (n mod i)"
proof -
  have q: "(0::rat) \<le> of_int n / of_int i" using assms by simp
  have "trunc (of_int n / of_int i) = n div i"
    using q by (simp add: trunc_def floor_divide_of_int_eq)
  then have "js_rem (of_int n) (of_int i) = of_int n - of_int i * of_int (n div i)"
    by (simp add: js_rem_def)
  also have "\<dots> = of_int (n - i * (n div i))" by simp
  also have "n - i * (n div i) = n mod i" by (simp add: minus_mult_div_eq_mod)
  finally show ?thesis .
qed

text \<open>A remainder that is exactly zero makes the dividend a multiple of the divisor.\<close>

lemma js_rem_zero_Ints:
  assumes "js_rem num (of_int i) = 0"
  shows "num \<in> \<int>"
proof -
  from assms have "num = of_int i * of_int (trunc (num / of_int i))"
    by (simp add: js_rem_def)
  then have "num = of_int (i * trunc (num / of_int i))" by simp
  then show ?thesis by (metis Ints_of_int)
qed

text \<open>For a positive counter and an integer input the guard compares squares.\<close>

lemma le_sqrt_int: "0 < i \<Longrightarrow> le_sqrt i (of_int n) = (i * i \<le> n)"
proof -
  assume pos: "0 < i"
  have "((of_int i :: rat) * of_int i \<le> of_int n) = (i * i \<le> n)"
    by (metis of_int_le_iff of_int_mult)
  moreover have "i * i \<le> n \<Longrightarrow> 0 \<le> n"
    by (meson order_trans zero_le_square)
  ultimately show ?thesis using pos by (auto simp: le_sqrt_def)
qed

text \<open>
  The loop entered at \<open>i\<close> answers true exactly when no counter value it reaches divides
  the input: it stops with false at the first one that does.
\<close>

lemma prime_loop_int:
  "0 < i \<Longrightarrow> 0 \<le> n \<Longrightarrow>
   prime_loop (of_int n) i = (\<forall>j. i \<le> j \<and> j * j \<le> n \<longrightarrow> n mod j \<noteq> 0)"
proof (induction "of_int n :: rat" i rule: prime_loop.induct)
  case (1 i)
  show ?case
  proof (cases "i * i \<le> n")
    case False
    have "\<And>j. i \<le> j \<Longrightarrow> \<not> j * j \<le> n"
    proof
      fix j assume "i \<le> j" and "j * j \<le> n"
      with 1(2) have "i * i \<le> j * j" by (intro mult_mono) simp_all
      with \<open>j * j \<le> n\<close> False show False by simp
    qed
    with False 1(2) show ?thesis
      by (subst prime_loop.simps) (auto simp: le_sqrt_int)
  next
    case True
    show ?thesis
    proof (cases "n mod i = 0")
      case z: True
      with True 1(2,3) show ?thesis
        by (subst prime_loop.simps) (auto simp: le_sqrt_int js_rem_of_int)
    next
      case nz: False
      have guard: "le_sqrt i (of_int n)" using True 1(2) by (simp add: le_sqrt_int)
      have rem: "js_rem (rat_of_int n) (rat_of_int i) \<noteq> 0"
        using nz 1(2,3) by (simp add: js_rem_of_int)
      have IH: "prime_loop (of_int n) (i + 1) = (\<forall>j. i + 1 \<le> j \<and> j * j \<le> n \<longrightarrow> n mod j \<noteq> 0)"
        using 1(1)[OF guard rem] 1(2,3) by simp
      have "(\<forall>j. i \<le> j \<and> j * j \<le> n \<longrightarrow> n mod j \<noteq> 0) =
            (\<forall>j. i + 1 \<le> j \<and> j * j \<le> n \<longrightarrow> n mod j \<noteq> 0)"
      proof -
        have "\<And>j. (i \<le> j) = (j = i \<or> i + 1 \<le> j)" by auto
        with nz show ?thesis by metis
      qed
      with IH guard rem show ?thesis
        by (subst prime_loop.simps) simp
    qed
  qed
qed

text \<open>The counters with \<open>j * j \<le> n\<close> are those up to the integer square root of \<open>n\<close>.\<close>

lemma isqrt_range: "0 \<le> j \<Longrightarrow> (j \<le> \<lfloor>sqrt (real_of_int n)\<rfloor>) = (j * j \<le> n)"
proof -
  assume nn: "0 \<le> j"
  have "(j \<le> \<lfloor>sqrt (real_of_int n)\<rfloor>) = (real_of_int j \<le> sqrt (real_of_int n))"
    by (simp add: le_floor_iff)
  also have "\<dots> = ((real_of_int j)\<^sup>2 \<le> real_of_int n)"
    using nn by (metis abs_of_nonneg of_int_0_le_iff real_le_rsqrt real_sqrt_abs real_sqrt_le_iff)
  also have "\<dots> = (j * j \<le> n)"
    by (metis of_int_le_iff of_int_mult power2_eq_square)
  finally show ?thesis .
qed

text \<open>On an input that is not an integer no remainder is zero, so the loop answers true.\<close>

lemma prime_loop_non_integer:
  "num \<notin> \<int> \<Longrightarrow> prime_loop num i"
proof (induction num i rule: prime_loop.induct)
  case (1 num i)
  have nz: "js_rem num (of_int i) \<noteq> 0"
    using "1.prems" js_rem_zero_Ints by blast
  show ?case
  proof (cases "le_sqrt i num")
    case True
    with nz "1.IH" "1.prems" show ?thesis by (subst prime_loop.simps) simp
  next
    case False
    then show ?thesis by (subst prime_loop.simps) simp
  qed
qed

text \<open>Once the guard fails for a positive counter it fails for every later one.\<close>

lemma le_sqrt_mono: "0 < i \<Longrightarrow> i \<le> j \<Longrightarrow> le_sqrt j num \<Longrightarrow> le_sqrt i num"
proof -
  assume pos: "0 < i" and le: "i \<le> j" and h: "le_sqrt j num"
  from pos le have jpos: "\<not> j \<le> 0" by simp
  with h have nn: "0 \<le> num" and sq: "(of_int j :: rat) * of_int j \<le> num"
    by (simp_all add: le_sqrt_def)
  from pos le have "i * i \<le> j * j" by (intro mult_mono) simp_all
  then have "(of_int i :: rat) * of_int i \<le> of_int j * of_int j"
    by (metis of_int_le_iff of_int_mult)
  with sq nn show ?thesis by (simp add: le_sqrt_def)
qed

text \<open>
  The loop entered at \<open>i\<close> answers true exactly when no counter from \<open>i\<close> on that passes
  the guard leaves the remainder zero.
\<close>

lemma prime_loop_all:
  "0 < i \<Longrightarrow>
   prime_loop num i = (\<forall>j. i \<le> j \<and> le_sqrt j num \<longrightarrow> js_rem num (of_int j) \<noteq> 0)"
proof (induction num i rule: prime_loop.induct)
  case (1 num i)
  show ?case
  proof (cases "le_sqrt i num")
    case False
    with "1.prems" have "\<And>j. i \<le> j \<Longrightarrow> \<not> le_sqrt j num"
      using le_sqrt_mono by blast
    with False show ?thesis by (subst prime_loop.simps) auto
  next
    case guard: True
    show ?thesis
    proof (cases "js_rem num (of_int i) = 0")
      case True
      with guard show ?thesis by (subst prime_loop.simps) auto
    next
      case False
      from "1.IH" [OF guard False] "1.prems"
      have IH: "prime_loop num (i + 1) =
          (\<forall>j. i + 1 \<le> j \<and> le_sqrt j num \<longrightarrow> js_rem num (of_int j) \<noteq> 0)"
        by simp
      have "(\<forall>j. i \<le> j \<and> le_sqrt j num \<longrightarrow> js_rem num (of_int j) \<noteq> 0) =
            (\<forall>j. i + 1 \<le> j \<and> le_sqrt j num \<longrightarrow> js_rem num (of_int j) \<noteq> 0)"
      proof -
        have "\<And>j. (i \<le> j) = (j = i \<or> i + 1 \<le> j)" by auto
        with False show ?thesis by metis
      qed
      with IH guard False show ?thesis by (subst prime_loop.simps) simp
    qed
  qed
qed

lemma le_sqrt_floor:
  assumes "0 \<le> num" and "0 < i"
  shows "le_sqrt i num = (i \<le> \<lfloor>sqrt (real_of_rat num)\<rfloor>)"
  using le_sqrt_real [OF assms(1), of i] by (simp add: le_floor_iff)

text \<open>The checker on every number from 2 on.\<close>

lemma prime_general:
  assumes "2 \<le> num"
  shows "prime num = (\<forall>i\<in>{2..\<lfloor>sqrt (real_of_rat num)\<rfloor>}. js_rem num (of_int i) \<noteq> 0)"
proof -
  from assms have nn: "0 \<le> num" by simp
  from assms have "prime num = prime_loop num 2" by (simp add: prime_def)
  also have "\<dots> = (\<forall>j. 2 \<le> j \<and> le_sqrt j num \<longrightarrow> js_rem num (of_int j) \<noteq> 0)"
    by (rule prime_loop_all) simp
  also have "\<dots> = (\<forall>i\<in>{2..\<lfloor>sqrt (real_of_rat num)\<rfloor>}. js_rem num (of_int i) \<noteq> 0)"
    using le_sqrt_floor [OF nn] by (auto simp: Ball_def)
  finally show ?thesis .
qed

text \<open>
  Claim C3. The primality checker answers false on every input below 2. On an input
  \<open>num \<ge> 2\<close> it answers true exactly when no integer \<open>i\<close> from 2 up to and including
  the integer square root of \<open>num\<close> leaves the remainder \<open>num % i\<close> zero; on an integer
  \<open>n \<ge> 2\<close> that is when no such \<open>i\<close> divides \<open>n\<close>. It answers true on 2, 3, 5, 7, 11
  and 13, and false on 4, 6, 8, 9, 10 and 12.
\<close>

theorem prime_trial_division:
  "(num < 2 \<longrightarrow> \<not> prime num) \<and>
   (2 \<le> num \<longrightarrow>
      prime num = (\<forall>i\<in>{2..\<lfloor>sqrt (real_of_rat num)\<rfloor>}. js_rem num (of_int i) \<noteq> 0)) \<and>
   (2 \<le> n \<longrightarrow> prime (of_int n) = (\<forall>i\<in>{2..\<lfloor>sqrt (real_of_int n)\<rfloor>}. n mod i \<noteq> 0)) \<and>
   prime 2 \<and> prime 3 \<and> prime 5 \<and> prime 7 \<and> prime 11 \<and> prime 13 \<and>
   \<not> prime 4 \<and> \<not> prime 6 \<and> \<not> prime 8 \<and> \<not> prime 9 \<and> \<not> prime 10 \<and> \<not> prime 12"
proof -
  have small: "num < 2 \<longrightarrow> \<not> prime num" by (simp add: prime_def)
  have general: "2 \<le> num \<longrightarrow>
      prime num = (\<forall>i\<in>{2..\<lfloor>sqrt (real_of_rat num)\<rfloor>}. js_rem num (of_int i) \<noteq> 0)"
    using prime_general by blast
  have loop: "2 \<le> n \<longrightarrow>
      prime (of_int n) = (\<forall>i\<in>{2..\<lfloor>sqrt (real_of_int n)\<rfloor>}. n mod i \<noteq> 0)"
  proof
    assume n2: "2 \<le> n"
    then have "\<not> (of_int n :: rat) < 2" by simp
    then have "prime (of_int n) = prime_loop (of_int n) 2" by (simp add: prime_def)
    also have "\<dots> = (\<forall>j. 2 \<le> j \<and> j * j \<le> n \<longrightarrow> n mod j \<noteq> 0)"
      using n2 by (intro prime_loop_int) simp_all
    also have "\<dots> = (\<forall>i\<in>{2..\<lfloor>sqrt (real_of_int n)\<rfloor>}. n mod i \<noteq> 0)"
      using isqrt_range by (auto simp: Ball_def)
    finally show "prime (of_int n) = (\<forall>i\<in>{2..\<lfloor>sqrt (real_of_int n)\<rfloor>}. n mod i \<noteq> 0)" .
  qed
  have p: "prime 2" "prime 3" "prime 5" "prime 7" "prime 11" "prime 13"
    by code_simp+
  have c: "\<not> prime 4" "\<not> prime 6" "\<not> prime 8" "\<not> prime 9" "\<not> prime 10" "\<not> prime 12"
    by code_simp+
  from small general loop p c show ?thesis by blast
qed

theorem prime_trial_division_witness:
  "(1::rat) < 2 \<and> \<not> prime 1 \<and> (2::rat) \<le> 5 / 2 \<and> prime (5 / 2) \<and>
   (2::int) \<le> 9 \<and> \<not> prime (of_int 9)"
proof -
  have mem: "(3::int) \<in> {2..\<lfloor>sqrt (real_of_int 9)\<rfloor>}"
    using isqrt_range [of 3 9] by simp
  have nine: "\<not> (\<forall>i\<in>{2..\<lfloor>sqrt (real_of_int 9)\<rfloor>}. (9::int) mod i \<noteq> 0)"
  proof
    assume "\<forall>i\<in>{2..\<lfloor>sqrt (real_of_int 9)\<rfloor>}. (9::int) mod i \<noteq> 0"
    from this mem have "(9::int) mod 3 \<noteq> 0" by (rule bspec)
    then show False by simp
  qed
  have "\<not> le_sqrt 2 (5 / 2)" by (simp add: le_sqrt_def)
  then have "\<not> 2 \<le> \<lfloor>sqrt (real_of_rat (5 / 2))\<rfloor>"
    using le_sqrt_floor [of "5 / 2" 2] by simp
  then have none: "{2..\<lfloor>sqrt (real_of_rat (5 / 2))\<rfloor>} = {}" by simp
  from prime_trial_division [of 1 9] nine
  have a: "\<not> prime 1 \<and> \<not> prime (of_int 9)" by simp
  from prime_trial_division [of "5 / 2" 9] none
  have b: "prime (5 / 2)" by simp
  from a b show ?thesis by simp
qed

text \<open>On a finite number the checker of every value is the checker of the rationals.\<close>

lemma prime_loop_js_finite: "prime_loop_js (Finite q) i = Some (prime_loop q i)"
proof (induction q i rule: prime_loop.induct)
  case (1 num i)
  show ?case
  proof (cases "le_sqrt i num")
    case False
    then show ?thesis
      by (subst prime_loop_js.simps, subst prime_loop.simps)
         (simp add: le_sqrt_js_def)
  next
    case guard: True
    show ?thesis
    proof (cases "js_rem num (of_int i) = 0")
      case True
      with guard show ?thesis
        by (subst prime_loop_js.simps, subst prime_loop.simps)
           (simp add: le_sqrt_js_def rem_is_zero_def)
    next
      case False
      from "1.IH" [OF guard False] guard False show ?thesis
        by (subst prime_loop_js.simps, subst prime_loop.simps)
           (simp add: le_sqrt_js_def rem_is_zero_def)
    qed
  qed
qed

lemma prime_js_finite: "prime_js (Finite q) = Some (prime q)"
  by (simp add: prime_js_def prime_def less_two_def prime_loop_js_finite)

text \<open>
  On \<open>+Infinity\<close> the loop never ends: every counter passes the guard and no remainder is
  zero.
\<close>

lemma prime_loop_js_infinity: "prime_loop_js PosInf i = None"
proof (cases "prime_loop_js PosInf i")
  case None
  then show ?thesis .
next
  case (Some y)
  have "(case (PosInf, i) of (x, j) \<Rightarrow> \<lambda>y. x \<noteq> PosInf) y"
  proof (rule prime_loop_js.raw_induct [where xa = "(PosInf, i)" and y = y
        and P = "\<lambda>x j y. x \<noteq> PosInf"])
    fix f x j z
    assume IH: "\<And>x j y. f x j = Some y \<Longrightarrow> x \<noteq> PosInf"
      and body: "(if le_sqrt_js j x
                  then if rem_is_zero x j then Some False else f x (j + 1)
                  else Some True) = Some z"
    show "x \<noteq> PosInf"
    proof
      assume "x = PosInf"
      with body have "f PosInf (j + 1) = Some z"
        by (simp add: le_sqrt_js_def rem_is_zero_def)
      from IH [OF this] show False by simp
    qed
  next
    show "(case (PosInf, i) of (x, j) \<Rightarrow> prime_loop_js x j) = Some y"
      using Some by simp
  qed
  then show ?thesis by simp
qed

text \<open>The checker on the three values that are not finite.\<close>

lemma prime_js_infinity: "prime_js PosInf = None"
  by (simp add: prime_js_def less_two_def prime_loop_js_infinity)

lemma prime_js_nan: "prime_js NaN = Some True"
  by (subst prime_js_def, subst prime_loop_js.simps) (simp add: less_two_def le_sqrt_js_def)

lemma prime_js_minus_infinity: "prime_js NegInf = Some False"
  by (simp add: prime_js_def less_two_def)

text \<open>
  Claim C10 as stated fails on \<open>+Infinity\<close>, a number that is not an integer and is not
  below 2: there the checker does not answer true, it never returns.
\<close>

theorem prime_infinity_counterexample:
  "\<not> is_integer PosInf \<and> at_least_two PosInf \<and> prime_js PosInf = None \<and>
   prime_js PosInf \<noteq> Some True"
  by (simp add: is_integer_def at_least_two_def prime_js_def less_two_def prime_loop_js_infinity)

text \<open>
  Claim C10, amended. On every finite input from 2 on that is not an integer the
  primality checker returns true, and no remainder \<open>num % i\<close> is exactly zero, whatever
  the divisor.
\<close>

theorem prime_finite_non_integer:
  assumes "is_finite x" and "\<not> is_integer x" and "at_least_two x"
  shows "prime_js x = Some True \<and> (\<forall>i. \<not> rem_is_zero x i)"
proof -
  from assms(1) obtain q where x: "x = Finite q" by (cases x) (simp_all add: is_finite_def)
  from assms(2,3) x have q: "q \<notin> \<int>" "2 \<le> q" by (simp_all add: is_integer_def at_least_two_def)
  from q have "prime q" by (simp add: prime_def prime_loop_non_integer)
  then have "prime_js x = Some True" by (simp add: x prime_js_finite)
  moreover have "\<forall>i. \<not> rem_is_zero x i"
    using q(1) js_rem_zero_Ints by (auto simp: x rem_is_zero_def)
  ultimately show ?thesis by simp
qed

lemma nineteen_halves_not_int: "(19 / 2 :: rat) \<notin> \<int>"
proof
  assume "(19 / 2 :: rat) \<in> \<int>"
  then obtain k :: int where "(19 / 2 :: rat) = of_int k" by (auto elim: Ints_cases)
  then have "(of_int 19 :: rat) = of_int (2 * k)" by simp
  then have "(19::int) = 2 * k" by (simp only: of_int_eq_iff)
  then show False by presburger
qed

theorem prime_finite_non_integer_witness:
  "is_finite (Finite (19 / 2)) \<and> \<not> is_integer (Finite (19 / 2)) \<and>
   at_least_two (Finite (19 / 2)) \<and> prime_js (Finite (19 / 2)) = Some True \<and>
   le_sqrt_js 2 (Finite (19 / 2)) \<and> js_rem (19 / 2) 2 = 3 / 2 \<and>
   le_sqrt_js 3 (Finite (19 / 2)) \<and> js_rem (19 / 2) 3 = 1 / 2 \<and>
   \<not> le_sqrt_js 4 (Finite (19 / 2))"
proof -
  have f: "is_finite (Finite (19 / 2))" by (simp add: is_finite_def)
  have n: "\<not> is_integer (Finite (19 / 2))"
    using nineteen_halves_not_int by (simp add: is_integer_def)
  have t: "at_least_two (Finite (19 / 2))" by (simp add: at_least_two_def)
  have g: "le_sqrt_js 2 (Finite (19 / 2))" "le_sqrt_js 3 (Finite (19 / 2))"
    "\<not> le_sqrt_js 4 (Finite (19 / 2))"
    by (simp_all add: le_sqrt_js_def le_sqrt_def)
  have r: "js_rem (19 / 2) 2 = 3 / 2" "js_rem (19 / 2) 3 = 1 / 2"
    by code_simp+
  from prime_finite_non_integer [OF f n t] f n t g r show ?thesis by simp
qed

section \<open>The matcher finds a match exactly when the text contains one\<close>












section \<open>What a match captures\<close>









section \<open>The offline responder on sums\<close>

text \<open>Evaluating the text of a number.\<close>


lemma nat_digits_lt10: "n < 10 \<Longrightarrow> nat_digits n = [digit_char n]"
  by (subst nat_digits.simps) simp

lemma nat_digits_ge10:
  "10 \<le> n \<Longrightarrow> nat_digits n = nat_digits (n div 10) @ [digit_char (n mod 10)]"
  by (subst nat_digits.simps) simp

lemmas number_text_simps =
  ToString_def nat_digits_lt10 nat_digits_ge10 digit_char_def sum_js_def
  Number_def digits_value_def digit_value_def capture_def

lemma match_calculate:
  "match_str ''Calculate 1234 + 5678'' sum_re = Some [(2, ''5678''), (1, ''1234'')]"
  by code_simp

lemma parse_calculate:
  "parseTwoNumbersForSum ''Calculate 1234 + 5678'' = Some \<lparr>num1 = 1234, num2 = 5678\<rparr>"
  unfolding parseTwoNumbersForSum_def match_calculate
  by (simp add: number_text_simps)

text \<open>
  Claim C7. On \<open>Calculate 1234 + 5678\<close> the offline responder answers with the text
  \<open>Result: 1234 + 5678 = 6912\<close>, whatever the collaborators and the state.
\<close>

theorem offline_calculate:
  "runOfflineDemo env ''Calculate 1234 + 5678'' st =
     (Inr \<lparr>demo_text = ''Result: 1234 + 5678 = 6912'',
           demo_toolCall = Some \<lparr>name = ''sum'', args = SumArgs \<lparr>num1 = 1234, num2 = 5678\<rparr>\<rparr>\<rparr>, st)"
  unfolding runOfflineDemo_def parse_calculate
  by (simp add: number_text_simps)














































section \<open>The offline responder on prices\<close>

lemma calls_initial: "calls initial = []"
  by (simp add: initial_def)

lemma eth_facts:
  "match_str ''eth'' sum_re = None"
  "toLowerCase ''eth'' = ''eth''"
  "\<not> includes_str ''eth'' ''prime''"
  "includes_str ''eth'' ''eth''"
  "\<not> includes_str ''eth'' ''price''"
  "\<not> includes_str ''eth'' ''crypto''"
  "\<not> includes_str ''eth'' ''bitcoin''"
  "\<not> includes_str ''eth'' ''ethereum''"
  by code_simp+

text \<open>
  Claim C5 as stated fails on the message \<open>eth\<close>: it matches neither the sum nor the
  prime intent and contains \<open>eth\<close>, yet it is answered with the help text and no price is
  looked up. The price intent is entered on the words \<open>price\<close>, \<open>crypto\<close>, \<open>bitcoin\<close>
  and \<open>ethereum\<close> only.
\<close>

theorem eth_alone_counterexample:
  "parseTwoNumbersForSum ''eth'' = None \<and>
   \<not> includes_str (toLowerCase ''eth'') ''prime'' \<and>
   includes_str (toLowerCase ''eth'') ''eth'' \<and>
   runOfflineDemo price_index ''eth'' initial =
     (Inr \<lparr>demo_text = help_text, demo_toolCall = None\<rparr>, initial)"
  by (simp add: runOfflineDemo_def parseTwoNumbersForSum_def eth_facts del: match_str.simps)

lemma btc_eth_facts:
  "match_str ''btc or eth price'' sum_re = None"
  "toLowerCase ''btc or eth price'' = ''btc or eth price''"
  "\<not> includes_str ''btc or eth price'' ''prime''"
  "includes_str ''btc or eth price'' ''price''"
  "includes_str ''btc or eth price'' ''eth''"
  "includes_str ''btc or eth price'' ''btc''"
  "toUpperCase ''bitcoin'' = ''BITCOIN''"
  by code_simp+

text \<open>
  A message with \<open>eth\<close> that passes the keyword test is still resolved to \<open>bitcoin\<close>
  when it also contains \<open>btc\<close>: that coin is tried first.
\<close>

lemma eth_with_btc:
  "parseTwoNumbersForSum ''btc or eth price'' = None \<and>
   \<not> includes_str (toLowerCase ''btc or eth price'') ''prime'' \<and>
   includes_str (toLowerCase ''btc or eth price'') ''eth'' \<and>
   runOfflineDemo price_index ''btc or eth price'' initial =
     (Inr \<lparr>demo_text = ''BITCOIN price: $65000 USD'',
           demo_toolCall =
             Some \<lparr>name = ''get_crypto_price'', args = CoinArgs \<lparr>coin = ''bitcoin''\<rparr>\<rparr>\<rparr>,
      initial\<lparr>calls := [Fetch ''bitcoin'']\<rparr>)"
proof -
  have s: "parseTwoNumbersForSum ''btc or eth price'' = None"
    by (simp add: parseTwoNumbersForSum_def btc_eth_facts del: match_str.simps)
  have c: "parseCoinForPrice ''btc or eth price'' = Some \<lparr>coin = ''bitcoin''\<rparr>"
    by (simp add: parseCoinForPrice_def btc_eth_facts)
  have g: "getcryptoprice price_index ''bitcoin'' initial =
      (Inr [''bitcoin'' \<mapsto> 65000, ''ethereum'' \<mapsto> 3000], initial\<lparr>calls := [Fetch ''bitcoin'']\<rparr>)"
    by (simp add: getcryptoprice_def price_index_def calls_initial)
  have r: "runOfflineDemo price_index ''btc or eth price'' initial =
     (Inr \<lparr>demo_text = ''BITCOIN price: $65000 USD'',
           demo_toolCall =
             Some \<lparr>name = ''get_crypto_price'', args = CoinArgs \<lparr>coin = ''bitcoin''\<rparr>\<rparr>\<rparr>,
      initial\<lparr>calls := [Fetch ''bitcoin'']\<rparr>)"
    unfolding runOfflineDemo_def Let_def s btc_eth_facts(2)
    by (simp add: btc_eth_facts c g price_text_def number_text_simps)
  from s r show ?thesis by (simp add: btc_eth_facts)
qed

text \<open>
  Claim C5, amended. For every message that matches neither the sum intent nor the
  prime intent, whose lower-case text contains one of \<open>price\<close>, \<open>crypto\<close> and
  \<open>ethereum\<close>, contains \<open>eth\<close>, and contains neither \<open>bitcoin\<close> nor \<open>btc\<close>, the
  offline responder resolves the coin to \<open>ethereum\<close>, looks its price up (one request
  to the price index) and answers with the outcome of that lookup.
\<close>

theorem offline_ethereum_price:
  assumes no_sum: "parseTwoNumbersForSum userMessage = None"
    and no_prime: "\<not> (includes_str (toLowerCase userMessage) ''prime'' \<and>
                       parseNumberForPrime userMessage \<noteq> None)"
    and keyword: "includes_str (toLowerCase userMessage) ''price'' \<or>
                  includes_str (toLowerCase userMessage) ''crypto'' \<or>
                  includes_str (toLowerCase userMessage) ''ethereum''"
    and eth: "includes_str (toLowerCase userMessage) ''eth''"
    and no_bitcoin: "\<not> includes_str (toLowerCase userMessage) ''bitcoin''"
                    "\<not> includes_str (toLowerCase userMessage) ''btc''"
  shows "parseCoinForPrice userMessage = Some \<lparr>coin = ''ethereum''\<rparr> \<and>
         calls (snd (runOfflineDemo env userMessage st)) = calls st @ [Fetch ''ethereum''] \<and>
         fst (runOfflineDemo env userMessage st) =
           (case fst (getcryptoprice env ''ethereum'' st) of
              Inl e \<Rightarrow> Inl e
            | Inr price \<Rightarrow>
                Inr \<lparr>demo_text =
                       (case price ''ethereum'' of
                          Some usd \<Rightarrow> ''ETHEREUM price: $'' @ ToString usd @ '' USD''
                        | None \<Rightarrow> no_price_text ''ethereum''),
                     demo_toolCall =
                       Some \<lparr>name = ''get_crypto_price'',
                             args = CoinArgs \<lparr>coin = ''ethereum''\<rparr>\<rparr>\<rparr>)"
proof -
  have upper: "toUpperCase ''ethereum'' = ''ETHEREUM''" by code_simp
  have coin: "parseCoinForPrice userMessage = Some \<lparr>coin = ''ethereum''\<rparr>"
    using eth no_bitcoin by (simp add: parseCoinForPrice_def)
  have prime_stage:
    "(if includes_str (toLowerCase userMessage) ''prime''
      then parseNumberForPrime userMessage else None) = None"
    using no_prime by auto
  have price_stage:
    "(if includes_str (toLowerCase userMessage) ''price'' \<or>
         includes_str (toLowerCase userMessage) ''crypto'' \<or>
         includes_str (toLowerCase userMessage) ''bitcoin'' \<or>
         includes_str (toLowerCase userMessage) ''ethereum''
      then parseCoinForPrice userMessage else None) = Some \<lparr>coin = ''ethereum''\<rparr>"
    using keyword coin by auto
  have run: "runOfflineDemo env userMessage st =
      (case getcryptoprice env ''ethereum'' st of
         (Inl e, st') \<Rightarrow> (Inl e, st')
       | (Inr price, st') \<Rightarrow>
           (Inr \<lparr>demo_text =
                   (case price ''ethereum'' of
                      Some usd \<Rightarrow> price_text ''ethereum'' usd
                    | None \<Rightarrow> no_price_text ''ethereum''),
                 demo_toolCall =
                   Some \<lparr>name = ''get_crypto_price'',
                         args = CoinArgs \<lparr>coin = ''ethereum''\<rparr>\<rparr>\<rparr>, st'))"
    unfolding runOfflineDemo_def Let_def no_sum prime_stage price_stage
    by (cases "getcryptoprice env ''ethereum'' st") (simp split: sum.split option.split)
  have log: "snd (getcryptoprice env ''ethereum'' st) = st\<lparr>calls := calls st @ [Fetch ''ethereum'']\<rparr>"
    by (simp add: getcryptoprice_def Let_def split: sum.split)
  have "calls (snd (runOfflineDemo env userMessage st)) = calls st @ [Fetch ''ethereum'']"
    using log unfolding run by (cases "getcryptoprice env ''ethereum'' st") (auto split: sum.split)
  moreover have "fst (runOfflineDemo env userMessage st) =
           (case fst (getcryptoprice env ''ethereum'' st) of
              Inl e \<Rightarrow> Inl e
            | Inr price \<Rightarrow>
                Inr \<lparr>demo_text =
                       (case price ''ethereum'' of
                          Some usd \<Rightarrow> ''ETHEREUM price: $'' @ ToString usd @ '' USD''
                        | None \<Rightarrow> no_price_text ''ethereum''),
                     demo_toolCall =
                       Some \<lparr>name = ''get_crypto_price'',
                             args = CoinArgs \<lparr>coin = ''ethereum''\<rparr>\<rparr>\<rparr>)"
    unfolding run
    by (cases "getcryptoprice env ''ethereum'' st")
       (auto simp: price_text_def upper split: sum.split option.split)
  ultimately show ?thesis using coin by simp
qed


lemma eth_price_facts:
  "match_str ''eth price'' sum_re = None"
  "toLowerCase ''eth price'' = ''eth price''"
  "\<not> includes_str ''eth price'' ''prime''"
  "includes_str ''eth price'' ''price''"
  "includes_str ''eth price'' ''eth''"
  "\<not> includes_str ''eth price'' ''bitcoin''"
  "\<not> includes_str ''eth price'' ''btc''"
  by code_simp+

theorem offline_ethereum_price_witness:
  "parseTwoNumbersForSum ''eth price'' = None \<and>
   \<not> (includes_str (toLowerCase ''eth price'') ''prime'' \<and>
      parseNumberForPrime ''eth price'' \<noteq> None) \<and>
   includes_str (toLowerCase ''eth price'') ''price'' \<and>
   includes_str (toLowerCase ''eth price'') ''eth'' \<and>
   \<not> includes_str (toLowerCase ''eth price'') ''bitcoin'' \<and>
   \<not> includes_str (toLowerCase ''eth price'') ''btc'' \<and>
   calls (snd (runOfflineDemo price_index ''eth price'' initial)) = [Fetch ''ethereum''] \<and>
   fst (runOfflineDemo price_index ''eth price'' initial) =
     Inr \<lparr>demo_text = ''ETHEREUM price: $3000 USD'',
          demo_toolCall =
            Some \<lparr>name = ''get_crypto_price'', args = CoinArgs \<lparr>coin = ''ethereum''\<rparr>\<rparr>\<rparr>"
proof -
  have h1: "parseTwoNumbersForSum ''eth price'' = None"
    by (simp add: parseTwoNumbersForSum_def eth_price_facts del: match_str.simps)
  have h2: "\<not> (includes_str (toLowerCase ''eth price'') ''prime'' \<and>
      parseNumberForPrime ''eth price'' \<noteq> None)"
    by (simp add: eth_price_facts)
  have h3: "includes_str (toLowerCase ''eth price'') ''price'' \<or>
            includes_str (toLowerCase ''eth price'') ''crypto'' \<or>
            includes_str (toLowerCase ''eth price'') ''ethereum''"
    by (simp add: eth_price_facts)
  have h4: "includes_str (toLowerCase ''eth price'') ''eth''"
    by (simp add: eth_price_facts)
  have h5: "\<not> includes_str (toLowerCase ''eth price'') ''bitcoin''"
    by (simp add: eth_price_facts)
  have h6: "\<not> includes_str (toLowerCase ''eth price'') ''btc''"
    by (simp add: eth_price_facts)
  have fetched: "fst (getcryptoprice price_index ''ethereum'' initial) =
      Inr [''bitcoin'' \<mapsto> 65000, ''ethereum'' \<mapsto> 3000]"
    by (simp add: getcryptoprice_def price_index_def)
  from offline_ethereum_price [OF h1 h2 h3 h4 h5 h6, of price_index initial]
  have "calls (snd (runOfflineDemo price_index ''eth price'' initial)) = [Fetch ''ethereum''] \<and>
        fst (runOfflineDemo price_index ''eth price'' initial) =
          Inr \<lparr>demo_text = ''ETHEREUM price: $3000 USD'',
               demo_toolCall =
                 Some \<lparr>name = ''get_crypto_price'', args = CoinArgs \<lparr>coin = ''ethereum''\<rparr>\<rparr>\<rparr>"
    by (simp add: fetched calls_initial number_text_simps)
  with h1 h2 h4 h5 h6 show ?thesis by (simp add: eth_price_facts)
qed

lemma bitcoin_price_facts:
  "match_str ''Bitcoin price'' sum_re = None"
  "toLowerCase ''Bitcoin price'' = ''bitcoin price''"
  "\<not> includes_str ''bitcoin price'' ''prime''"
  "includes_str ''bitcoin price'' ''price''"
  "includes_str ''bitcoin price'' ''bitcoin''"
  "toUpperCase ''bitcoin'' = ''BITCOIN''"
  by code_simp+

text \<open>On \<open>Bitcoin price\<close> the offline responder looks the price of \<open>bitcoin\<close> up.\<close>

lemma offline_bitcoin_price:
  "runOfflineDemo env ''Bitcoin price'' st =
     (case getcryptoprice env ''bitcoin'' st of
        (Inl e, st') \<Rightarrow> (Inl e, st')
      | (Inr price, st') \<Rightarrow>
          (Inr \<lparr>demo_text =
                  (case price ''bitcoin'' of
                     Some usd \<Rightarrow> ''BITCOIN price: $'' @ ToString usd @ '' USD''
                   | None \<Rightarrow> no_price_text ''bitcoin''),
                demo_toolCall =
                  Some \<lparr>name = ''get_crypto_price'',
                        args = CoinArgs \<lparr>coin = ''bitcoin''\<rparr>\<rparr>\<rparr>, st'))"
proof -
  have s: "parseTwoNumbersForSum ''Bitcoin price'' = None"
    by (simp add: parseTwoNumbersForSum_def bitcoin_price_facts del: match_str.simps)
  have c: "parseCoinForPrice ''Bitcoin price'' = Some \<lparr>coin = ''bitcoin''\<rparr>"
    by (simp add: parseCoinForPrice_def bitcoin_price_facts)
  show ?thesis
    unfolding runOfflineDemo_def Let_def s bitcoin_price_facts(2)
    by (cases "getcryptoprice env ''bitcoin'' st")
       (simp add: bitcoin_price_facts c price_text_def split: sum.split option.split)
qed

text \<open>
  Claim C4 as stated fails when the price index cannot be reached: without a key, the
  request \<open>{"message": "Bitcoin price"}\<close> is then answered with status 500.
\<close>

theorem chat_bitcoin_price_counterexample:
  "\<not> GROQ_API_KEY no_network \<and>
   chatHandler no_network (chat_body ''Bitcoin price'') initial =
     (\<lparr>status = 500, payload = ErrorBody ''Offline demo failed.''\<rparr>,
      initial\<lparr>calls := [Fetch ''bitcoin'']\<rparr>)"
  by (simp add: chatHandler_def chat_body_def message_field_def offline_bitcoin_price
      getcryptoprice_def no_network_def initial_def)

text \<open>
  Claim C4, amended. Without a key, the request \<open>{"message": "Bitcoin price"}\<close> is
  answered with status 200 and the text \<open>BITCOIN price: $\<close>, the number and \<open> USD\<close>
  when the price index answers with a price for bitcoin; with status 200 and the
  message that no price was found when it answers without one; and with status 500 and
  the error \<open>Offline demo failed.\<close> when the request to the price index fails, its
  status is not a success, or its payload cannot be read.
\<close>

theorem chat_bitcoin_price:
  assumes "\<not> GROQ_API_KEY env"
  shows "fst (chatHandler env (chat_body ''Bitcoin price'') st) =
     (case fetch env ''bitcoin'' of
        Inl e \<Rightarrow> \<lparr>status = 500, payload = ErrorBody ''Offline demo failed.''\<rparr>
      | Inr response \<Rightarrow>
          if \<not> ok response
          then \<lparr>status = 500, payload = ErrorBody ''Offline demo failed.''\<rparr>
          else (case json response of
                  Inl e \<Rightarrow> \<lparr>status = 500, payload = ErrorBody ''Offline demo failed.''\<rparr>
                | Inr price \<Rightarrow>
                    \<lparr>status = 200,
                     payload = ChatBody
                       (Some (case price ''bitcoin'' of
                                Some usd \<Rightarrow> ''BITCOIN price: $'' @ ToString usd @ '' USD''
                              | None \<Rightarrow> no_price_text ''bitcoin''))
                       (Some \<lparr>name = ''get_crypto_price'',
                              args = CoinArgs \<lparr>coin = ''bitcoin''\<rparr>\<rparr>)\<rparr>))"
  using assms
  by (simp add: chatHandler_def chat_body_def message_field_def offline_bitcoin_price
      getcryptoprice_def Let_def split: sum.split option.split)

theorem chat_bitcoin_price_witness:
  "\<not> GROQ_API_KEY price_index \<and>
   fst (chatHandler price_index (chat_body ''Bitcoin price'') initial) =
     \<lparr>status = 200,
      payload = ChatBody (Some ''BITCOIN price: $65000 USD'')
        (Some \<lparr>name = ''get_crypto_price'', args = CoinArgs \<lparr>coin = ''bitcoin''\<rparr>\<rparr>)\<rparr>"
proof -
  have k: "\<not> GROQ_API_KEY price_index" by (simp add: price_index_def)
  have f: "fetch price_index ''bitcoin'' =
      Inr \<lparr>ok = True, json = Inr [''bitcoin'' \<mapsto> 65000, ''ethereum'' \<mapsto> 3000]\<rparr>"
    by (simp add: price_index_def)
  from chat_bitcoin_price [OF k, of initial] k show ?thesis
    by (simp add: f number_text_simps)
qed

section \<open>Requests without a message\<close>


text \<open>
  Claim C9. For every request body whose \<open>message\<close> field is missing or is not a
  string, which includes the body \<open>{}\<close>, the handler of \<open>POST /chat\<close> and of
  \<open>POST /api/chat\<close> answers with status 400 and an error object, and leaves the state,
  and so the transcript, as it was.
\<close>

theorem chat_missing_message:
  assumes "\<And>s. message_field body \<noteq> Some (JStr s)"
  shows "\<forall>path\<in>{''/chat'', ''/api/chat''}.
           \<exists>handler. post path = Some handler \<and>
             handler env body st =
               (\<lparr>status = 400,
                 payload = ErrorBody ''Missing 'message' field in request body.''\<rparr>, st)"
proof -
  have "chatHandler env body st =
      (\<lparr>status = 400, payload = ErrorBody ''Missing 'message' field in request body.''\<rparr>, st)"
  proof (cases "message_field body")
    case None
    then show ?thesis by (simp add: chatHandler_def)
  next
    case (Some v)
    with assms have ns: "\<And>s. v \<noteq> JStr s" by auto
    show ?thesis
    proof (cases v)
      case (JStr s)
      with ns show ?thesis by blast
    qed (simp_all add: chatHandler_def Some)
  qed
  then show ?thesis by (simp add: post_def)
qed

theorem chat_missing_message_witness:
  "message_field (Some (JObj [])) = None \<and>
   post ''/chat'' = Some chatHandler \<and> post ''/api/chat'' = Some chatHandler \<and>
   chatHandler price_index (Some (JObj [])) initial =
     (\<lparr>status = 400, payload = ErrorBody ''Missing 'message' field in request body.''\<rparr>,
      initial)"
proof -
  have m: "message_field (Some (JObj [])) = None" by (simp add: message_field_def)
  then have "\<And>s. message_field (Some (JObj [])) \<noteq> Some (JStr s)" by simp
  from chat_missing_message [OF this, of price_index initial] m show ?thesis
    by (simp add: post_def)
qed

section \<open>The orchestrator and its transcript\<close>


text \<open>With a key, or a client constructed before, the orchestrator has a client.\<close>

lemma getGroqClient_ok:
  "GROQ_API_KEY env \<or> groqClient st \<Longrightarrow>
   getGroqClient env st = (True, st\<lparr>groqClient := True\<rparr>)"
  by (auto simp: getGroqClient_def)

text \<open>
  Claim C1. When a client is available and the first response of the provider requests
  invocations, the orchestrator executes the first of them and no other. When the
  invocation succeeds it appends the assistant's request and then one tool message,
  whose identifier is that of the first invocation, and issues the second request on the
  transcript that ends with these two messages. When the invocation fails, nothing is
  appended after the user message and no second request is issued.
\<close>

theorem first_invocation_only:
  assumes client: "GROQ_API_KEY env \<or> groqClient st"
    and first: "create env (History st @ [User userMessage]) True = Inr message"
    and requested: "tool_calls message = toolCall # others"
  shows "calls (snd (runAgent env userMessage st)) =
           calls st @
             (case invoke env toolCall of
                Inl e \<Rightarrow> [Create (History st @ [User userMessage]) True, Invoke toolCall]
              | Inr result \<Rightarrow>
                  [Create (History st @ [User userMessage]) True, Invoke toolCall,
                   Create (History st @ [User userMessage,
                             Assistant (content message) (toolCall # others),
                             Tool (call_id toolCall) result]) False]) \<and>
         History (snd (runAgent env userMessage st)) =
           History st @ [User userMessage] @
             (case invoke env toolCall of
                Inl e \<Rightarrow> []
              | Inr result \<Rightarrow>
                  [Assistant (content message) (toolCall # others),
                   Tool (call_id toolCall) result] @
                  (case create env (History st @ [User userMessage,
                             Assistant (content message) (toolCall # others),
                             Tool (call_id toolCall) result]) False of
                     Inl e \<Rightarrow> []
                   | Inr finalMessage \<Rightarrow>
                       if truthy (content finalMessage)
                       then [Assistant (content finalMessage) []] else []))"
  using first requested
  by (simp add: runAgent_def getGroqClient_ok [OF client] request_def execute_def push_def
      split: sum.split)


theorem first_invocation_only_witness:
  "GROQ_API_KEY tool_provider \<and>
   create tool_provider (History initial @ [User ''What is 2 + 3?'']) True =
     Inr \<lparr>content = None, tool_calls = [sum_call, prime_call]\<rparr> \<and>
   invoke tool_provider sum_call = Inr ''5'' \<and>
   calls (snd (runAgent tool_provider ''What is 2 + 3?'' initial)) =
     [Create [System system_instruction, User ''What is 2 + 3?''] True,
      Invoke sum_call,
      Create [System system_instruction, User ''What is 2 + 3?'',
              Assistant None [sum_call, prime_call], Tool ''call_1'' ''5''] False] \<and>
   History (snd (runAgent tool_provider ''What is 2 + 3?'' initial)) =
     [System system_instruction, User ''What is 2 + 3?'',
      Assistant None [sum_call, prime_call], Tool ''call_1'' ''5'',
      Assistant (Some ''2 + 3 = 5'') []]"
proof -
  have k: "GROQ_API_KEY tool_provider \<or> groqClient initial" by (simp add: tool_provider_def)
  have c: "create tool_provider (History initial @ [User ''What is 2 + 3?'']) True =
      Inr \<lparr>content = None, tool_calls = [sum_call, prime_call]\<rparr>"
    by (simp add: tool_provider_def)
  have t: "tool_calls \<lparr>content = None, tool_calls = [sum_call, prime_call]\<rparr> =
      sum_call # [prime_call]"
    by simp
  have i: "invoke tool_provider sum_call = Inr ''5''" by (simp add: tool_provider_def)
  have f: "\<And>h. create tool_provider h False = Inr \<lparr>content = Some ''2 + 3 = 5'', tool_calls = []\<rparr>"
    by (simp add: tool_provider_def)
  have id: "call_id sum_call = ''call_1''" by (simp add: sum_call_def)
  have h: "History initial = [System system_instruction]" "calls initial = []"
    by (simp_all add: initial_def)
  from first_invocation_only [OF k c t] show ?thesis
    by (simp add: c i f id h truthy_def tool_provider_def)
qed

text \<open>
  A request of the orchestrator that fails ends with the call that failed: the error
  returned is the error of the last recorded call, and every call before it succeeded.
\<close>

lemma runAgent_failure:
  assumes client: "GROQ_API_KEY env \<or> groqClient st"
    and fails: "fst (runAgent env userMessage st) = Inl err"
  shows "\<exists>cs. calls (snd (runAgent env userMessage st)) = calls st @ cs \<and> cs \<noteq> [] \<and>
           failure env (last cs) = Some err \<and> (\<forall>c\<in>set (butlast cs). failure env c = None)"
proof (cases "create env (History st @ [User userMessage]) True")
  case (Inl e)
  with fails have "e = err"
    by (simp add: runAgent_def getGroqClient_ok [OF client] request_def push_def)
  with Inl have
    "calls (snd (runAgent env userMessage st)) =
       calls st @ [Create (History st @ [User userMessage]) True]"
    "failure env (Create (History st @ [User userMessage]) True) = Some err"
    by (simp_all add: runAgent_def getGroqClient_ok [OF client] request_def push_def failure_def)
  then show ?thesis by (intro exI [of _ "[Create (History st @ [User userMessage]) True]"]) simp
next
  case (Inr message)
  note first = this
  show ?thesis
  proof (cases "tool_calls message")
    case Nil
    with first fails show ?thesis
      by (simp add: runAgent_def getGroqClient_ok [OF client] request_def push_def)
  next
    case (Cons toolCall others)
    have tc: "calls (snd (runAgent env userMessage st)) =
           calls st @
             (case invoke env toolCall of
                Inl e \<Rightarrow> [Create (History st @ [User userMessage]) True, Invoke toolCall]
              | Inr result \<Rightarrow>
                  [Create (History st @ [User userMessage]) True, Invoke toolCall,
                   Create (History st @ [User userMessage,
                             Assistant (content message) (toolCall # others),
                             Tool (call_id toolCall) result]) False])"
      using first Cons
      by (simp add: runAgent_def getGroqClient_ok [OF client] request_def execute_def push_def
          split: sum.split)
    have ok1: "failure env (Create (History st @ [User userMessage]) True) = None"
      using first by (simp add: failure_def)
    show ?thesis
    proof (cases "invoke env toolCall")
      case (Inl e)
      with first Cons fails have "e = err"
        by (simp add: runAgent_def getGroqClient_ok [OF client] request_def execute_def push_def)
      with Inl have "failure env (Invoke toolCall) = Some err" by (simp add: failure_def)
      with tc Inl ok1 show ?thesis
        by (intro exI [of _ "[Create (History st @ [User userMessage]) True, Invoke toolCall]"])
           simp
    next
      case (Inr result)
      then have ok2: "failure env (Invoke toolCall) = None" by (simp add: failure_def)
      let ?H2 = "History st @ [User userMessage,
                   Assistant (content message) (toolCall # others),
                   Tool (call_id toolCall) result]"
      from first Cons Inr fails have "create env ?H2 False = Inl err"
        by (simp add: runAgent_def getGroqClient_ok [OF client] request_def execute_def push_def
            split: sum.splits)
      then have "failure env (Create ?H2 False) = Some err" by (simp add: failure_def)
      with tc Inr ok1 ok2 show ?thesis
        by (intro exI [of _ "[Create (History st @ [User userMessage]) True, Invoke toolCall,
                              Create ?H2 False]"]) simp
    qed
  qed
qed

text \<open>
  A first completion request that fails makes the orchestrator fail with the same error,
  after that one request: the user message is in the transcript and nothing was retried.
\<close>

lemma runAgent_first_request_fails:
  assumes client: "GROQ_API_KEY env \<or> groqClient st"
    and down: "create env (History st @ [User userMessage]) True = Inl e"
  shows "runAgent env userMessage st =
           (Inl e, st\<lparr>History := History st @ [User userMessage], groqClient := True,
                       calls := calls st @ [Create (History st @ [User userMessage]) True]\<rparr>)"
  using down
  by (simp add: runAgent_def getGroqClient_ok [OF client] request_def push_def)

text \<open>After a failure of the orchestrator the handler answers from the offline responder.\<close>

lemma chatHandler_fallback:
  assumes key: "GROQ_API_KEY env" and nonempty: "message \<noteq> []"
    and fails: "fst (runAgent env message st) = Inl err"
  shows "chatHandler env (chat_body message) st =
           (case runOfflineDemo env message (snd (runAgent env message st)) of
              (Inr demo, st'') \<Rightarrow>
                (\<lparr>status = 200,
                  payload = ChatBody (Some (demo_text demo @ fallback_note))
                              (demo_toolCall demo)\<rparr>, st'')
            | (Inl fallbackErr, st'') \<Rightarrow>
                (\<lparr>status = 500, payload = ErrorBody (safeMessage err)\<rparr>, st''))"
proof -
  obtain r st' where ra: "runAgent env message st = (r, st')" by (cases "runAgent env message st")
  with fails have r: "r = Inl err" by simp
  show ?thesis
    using key nonempty
    by (cases "runOfflineDemo env message st'")
       (simp add: chatHandler_def chat_body_def message_field_def ra r split: sum.split)
qed

text \<open>
  Claim C8, amended. When a key is set and the orchestrator fails on a message, the
  call that failed is the last call it made (nothing is retried) and its error is the
  one returned to the handler. The handler then runs the offline responder: when that
  succeeds the answer has status 200 and the offline text followed by the fallback
  note; when the offline responder fails as well, the answer has status 500 and the
  message of the orchestrator's error.
\<close>

theorem remote_failure_fallback:
  assumes key: "GROQ_API_KEY env" and nonempty: "message \<noteq> []"
    and fails: "fst (runAgent env message st) = Inl err"
  shows "(\<exists>cs. calls (snd (runAgent env message st)) = calls st @ cs \<and> cs \<noteq> [] \<and>
            failure env (last cs) = Some err \<and> (\<forall>c\<in>set (butlast cs). failure env c = None)) \<and>
         chatHandler env (chat_body message) st =
           (case runOfflineDemo env message (snd (runAgent env message st)) of
              (Inr demo, st'') \<Rightarrow>
                (\<lparr>status = 200,
                  payload = ChatBody (Some (demo_text demo @ fallback_note))
                              (demo_toolCall demo)\<rparr>, st'')
            | (Inl fallbackErr, st'') \<Rightarrow>
                (\<lparr>status = 500, payload = ErrorBody (safeMessage err)\<rparr>, st''))"
proof -
  from key have "GROQ_API_KEY env \<or> groqClient st" by simp
  from runAgent_failure [OF this fails] chatHandler_fallback [OF key nonempty fails]
  show ?thesis by blast
qed

lemma provider_down_agent:
  "runAgent provider_down m initial =
     (Inl (Error ''Connection error.''),
      \<lparr>History = [System system_instruction, User m], groqClient = True,
        calls = [Create [System system_instruction, User m] True]\<rparr>)"
  by (simp add: runAgent_def getGroqClient_def request_def push_def provider_down_def initial_def)

text \<open>
  Claim C8 as stated fails when the provider and the price index are both out of reach:
  \<open>Bitcoin price\<close> is then answered with status 500 and the provider's error, and there
  is no offline text.
\<close>

theorem remote_failure_counterexample:
  "GROQ_API_KEY provider_down \<and>
   fst (runAgent provider_down ''Bitcoin price'' initial) = Inl (Error ''Connection error.'') \<and>
   fst (chatHandler provider_down (chat_body ''Bitcoin price'') initial) =
     \<lparr>status = 500, payload = ErrorBody ''Connection error.''\<rparr>"
proof -
  have k: "GROQ_API_KEY provider_down" by (simp add: provider_down_def)
  have f: "fetch provider_down ''bitcoin'' = Inl (Error ''fetch failed'')"
    by (simp add: provider_down_def)
  show ?thesis
    using k
    by (simp add: chatHandler_def chat_body_def message_field_def provider_down_agent
        offline_bitcoin_price getcryptoprice_def f safeMessage_def)
qed

theorem remote_failure_fallback_witness:
  "GROQ_API_KEY provider_down \<and>
   fst (runAgent provider_down ''Calculate 1234 + 5678'' initial) =
     Inl (Error ''Connection error.'') \<and>
   calls (snd (runAgent provider_down ''Calculate 1234 + 5678'' initial)) =
     [Create [System system_instruction, User ''Calculate 1234 + 5678''] True] \<and>
   fst (chatHandler provider_down (chat_body ''Calculate 1234 + 5678'') initial) =
     \<lparr>status = 200,
      payload = ChatBody (Some (''Result: 1234 + 5678 = 6912'' @ fallback_note))
        (Some \<lparr>name = ''sum'', args = SumArgs \<lparr>num1 = 1234, num2 = 5678\<rparr>\<rparr>)\<rparr>"
proof -
  have k: "GROQ_API_KEY provider_down" by (simp add: provider_down_def)
  have n: "''Calculate 1234 + 5678'' \<noteq> []" by simp
  have f: "fst (runAgent provider_down ''Calculate 1234 + 5678'' initial) =
      Inl (Error ''Connection error.'')"
    by (simp add: provider_down_agent)
  have o: "\<And>st. runOfflineDemo provider_down ''Calculate 1234 + 5678'' st =
     (Inr \<lparr>demo_text = ''Result: 1234 + 5678 = 6912'',
           demo_toolCall = Some \<lparr>name = ''sum'', args = SumArgs \<lparr>num1 = 1234, num2 = 5678\<rparr>\<rparr>\<rparr>, st)"
    unfolding runOfflineDemo_def parse_calculate
    by (simp add: number_text_simps)
  from remote_failure_fallback [OF k n f, THEN conjunct2] k f show ?thesis
    by (simp add: o provider_down_agent)
qed

lemma getcryptoprice_History: "History (snd (getcryptoprice env c st)) = History st"
  by (simp add: getcryptoprice_def Let_def split: sum.split)

lemma price_stage_History:
  "History (snd (case getcryptoprice env c st of
          (Inl e, st') \<Rightarrow> (Inl e, st')
        | (Inr price, st') \<Rightarrow> (Inr (f price), st'))) = History st"
  using getcryptoprice_History [of env c st]
  by (cases "getcryptoprice env c st") (auto split: sum.split)

lemma runOfflineDemo_History: "History (snd (runOfflineDemo env m st)) = History st"
  by (simp add: runOfflineDemo_def Let_def price_stage_History split: option.split)

text \<open>A sequence of steps appends to the transcript the messages it pushes, in order.\<close>

lemma apply_op_History:
  "History (apply_op op st) = History st @ pushed [op]"
  by (cases op)
     (simp_all add: apply_op_def push_def request_def execute_def getGroqClient_def
        getcryptoprice_History)

lemma pushed_Cons: "pushed (op # ops) = pushed [op] @ pushed ops"
  by (cases op) simp_all

lemma apply_ops_History:
  "History (apply_ops ops st) = History st @ pushed ops"
proof (induction ops arbitrary: st)
  case Nil
  then show ?case by simp
next
  case (Cons op ops)
  have "History (apply_ops (op # ops) st) = History (apply_op op st) @ pushed ops"
    by (simp add: Cons.IH)
  also have "\<dots> = History st @ pushed [op] @ pushed ops"
    by (simp add: apply_op_History)
  also have "\<dots> = History st @ pushed (op # ops)"
    by (simp add: pushed_Cons [of op ops])
  finally show ?case .
qed

lemma apply_ops_append: "apply_ops (xs @ ys) st = apply_ops ys (apply_ops xs st)"
  by (induction xs arbitrary: st) simp_all

text \<open>Every run of a handler, and every sequence of runs, is a sequence of steps.\<close>

lemma price_stage_snd:
  "snd (case getcryptoprice env c st of
          (Inl e, st') \<Rightarrow> (Inl e, st')
        | (Inr price, st') \<Rightarrow> (Inr (f price), st')) = snd (getcryptoprice env c st)"
  by (cases "getcryptoprice env c st") (auto split: sum.split)

lemma runOfflineDemo_ops:
  "\<exists>ops. snd (runOfflineDemo env m st) = apply_ops ops st"
proof -
  have a: "snd (runOfflineDemo env m st) = st \<or>
        (\<exists>c. snd (runOfflineDemo env m st) = snd (getcryptoprice env c st))"
    by (simp add: runOfflineDemo_def Let_def price_stage_snd split: option.split) blast
  then show ?thesis
  proof
    assume "snd (runOfflineDemo env m st) = st"
    then have "snd (runOfflineDemo env m st) = apply_ops [] st" by simp
    then show ?thesis by blast
  next
    assume "\<exists>c. snd (runOfflineDemo env m st) = snd (getcryptoprice env c st)"
    then obtain c where "snd (runOfflineDemo env m st) = snd (getcryptoprice env c st)" by blast
    then have "snd (runOfflineDemo env m st) = apply_ops [GetCryptoPrice env c] st"
      by (simp add: apply_op_def)
    then show ?thesis by blast
  qed
qed

lemma runAgent_ops:
  "\<exists>ops. snd (runAgent env m st) = apply_ops ops st"
proof -
  let ?g = "GetGroqClient env"
  let ?u = "Push (User m)"
  let ?r = "Request env True"
  show ?thesis
  proof (cases "fst (getGroqClient env st)")
    case False
    then have "snd (runAgent env m st) = apply_ops [?g] st"
      by (cases "getGroqClient env st") (simp add: runAgent_def apply_op_def)
    then show ?thesis by blast
  next
    case True
    define st1 where "st1 = snd (getGroqClient env st)"
    define st2 where "st2 = snd (request env True (push (User m) st1))"
    have g: "getGroqClient env st = (True, st1)"
      using True by (cases "getGroqClient env st") (simp add: st1_def)
    have st2: "st2 = apply_ops [?g, ?u, ?r] st"
      by (simp add: st2_def st1_def apply_op_def)
    show ?thesis
    proof (cases "create env (History (push (User m) st1)) True")
      case (Inl e)
      then have "snd (runAgent env m st) = st2"
        by (simp add: runAgent_def g request_def st2_def)
      with st2 show ?thesis by blast
    next
      case (Inr message)
      show ?thesis
      proof (cases "tool_calls message")
        case Nil
        have "snd (runAgent env m st) =
              (if truthy (content message) then push (Assistant (content message) []) st2 else st2)"
          using Inr Nil by (simp add: runAgent_def g request_def st2_def)
        then have "snd (runAgent env m st) =
              apply_ops ([?g, ?u, ?r] @
                (if truthy (content message) then [Push (Assistant (content message) [])] else [])) st"
          by (simp add: apply_ops_append apply_op_def st2_def st1_def)
        then show ?thesis by blast
      next
        case (Cons toolCall others)
        define st3 where "st3 = snd (execute env toolCall st2)"
        have st3: "st3 = apply_ops ([?g, ?u, ?r] @ [Execute env toolCall]) st"
          by (simp add: apply_op_def st3_def st2_def st1_def)
        show ?thesis
        proof (cases "invoke env toolCall")
          case (Inl e)
          then have "snd (runAgent env m st) = st3"
            using Inr Cons by (simp add: runAgent_def g request_def execute_def st2_def st3_def)
          with st3 show ?thesis by blast
        next
          case result: (Inr result)
          let ?a = "Push (Assistant (content message) (tool_calls message))"
          let ?t = "Push (Tool (call_id toolCall) result)"
          define st4 where "st4 = snd (request env False
              (push (Tool (call_id toolCall) result)
                (push (Assistant (content message) (tool_calls message)) st3)))"
          have st4: "st4 = apply_ops ([?g, ?u, ?r] @ [Execute env toolCall, ?a, ?t, Request env False]) st"
            by (simp add: apply_op_def st4_def st3_def st2_def st1_def)
          show ?thesis
          proof (cases "create env (History (push (Tool (call_id toolCall) result)
                (push (Assistant (content message) (tool_calls message)) st3))) False")
            case (Inl e)
            then have "snd (runAgent env m st) = st4"
              using Inr Cons result
              by (simp add: runAgent_def g request_def execute_def st2_def st3_def st4_def)
            with st4 show ?thesis by blast
          next
            case final: (Inr finalMessage)
            then have "snd (runAgent env m st) =
               (if truthy (content finalMessage)
                then push (Assistant (content finalMessage) []) st4 else st4)"
              using Inr Cons result
              by (simp add: runAgent_def g request_def execute_def st2_def st3_def st4_def)
            then have "snd (runAgent env m st) =
               apply_ops (([?g, ?u, ?r] @ [Execute env toolCall, ?a, ?t, Request env False]) @
                 (if truthy (content finalMessage)
                  then [Push (Assistant (content finalMessage) [])] else [])) st"
              by (simp add: apply_ops_append apply_op_def st4_def st3_def st2_def st1_def)
            then show ?thesis by blast
          qed
        qed
      qed
    qed
  qed
qed

lemma chatHandler_invalid:
  assumes "\<forall>s. message_field body = Some (JStr s) \<longrightarrow> s = []"
  shows "snd (chatHandler env body st) = st"
proof (cases "message_field body")
  case None
  then show ?thesis by (simp add: chatHandler_def)
next
  case (Some v)
  with assms show ?thesis by (cases v) (auto simp: chatHandler_def)
qed

lemma chatHandler_ops:
  "\<exists>ops. snd (chatHandler env body st) = apply_ops ops st"
proof (cases "\<exists>message. message_field body = Some (JStr message) \<and> message \<noteq> []")
  case False
  have "snd (chatHandler env body st) = st"
  proof (cases "message_field body")
    case None
    then show ?thesis by (simp add: chatHandler_def)
  next
    case (Some v)
    with False show ?thesis by (cases v) (auto simp: chatHandler_def)
  qed
  then have "snd (chatHandler env body st) = apply_ops [] st" by simp
  then show ?thesis by blast
next
  case True
  then obtain message where m: "message_field body = Some (JStr message)" "message \<noteq> []"
    by blast
  show ?thesis
  proof (cases "GROQ_API_KEY env")
    case False
    have "snd (chatHandler env body st) = snd (runOfflineDemo env message st)"
      using m False
      by (cases "runOfflineDemo env message st") (auto simp: chatHandler_def split: sum.split)
    with runOfflineDemo_ops [of env message st] show ?thesis by simp
  next
    case True
    obtain r st' where ra: "runAgent env message st = (r, st')"
      by (cases "runAgent env message st")
    from runAgent_ops [of env message st] ra obtain ops1 where
      o1: "st' = apply_ops ops1 st" by auto
    show ?thesis
    proof (cases r)
      case (Inr result)
      with m True ra have "snd (chatHandler env body st) = st'" by (simp add: chatHandler_def)
      with o1 show ?thesis by blast
    next
      case (Inl err)
      have "snd (chatHandler env body st) = snd (runOfflineDemo env message st')"
        using m True ra Inl
        by (cases "runOfflineDemo env message st'") (auto simp: chatHandler_def split: sum.split)
      moreover from runOfflineDemo_ops [of env message st'] obtain ops2 where
        "snd (runOfflineDemo env message st') = apply_ops ops2 st'" by blast
      ultimately have "snd (chatHandler env body st) = apply_ops (ops1 @ ops2) st"
        by (simp add: apply_ops_append o1)
      then show ?thesis by blast
    qed
  qed
qed


lemma serve_ops: "\<exists>ops. serve reqs st = apply_ops ops st"
proof (induction reqs arbitrary: st)
  case Nil
  have "serve [] st = apply_ops [] st" by simp
  then show ?case by blast
next
  case (Cons req reqs)
  obtain env body where req: "req = (env, body)" by (cases req)
  from chatHandler_ops [of env body st] obtain ops1 where
    a: "snd (chatHandler env body st) = apply_ops ops1 st" by blast
  from Cons.IH [of "snd (chatHandler env body st)"] obtain ops2 where
    b: "serve reqs (snd (chatHandler env body st)) = apply_ops ops2 (snd (chatHandler env body st))"
    by blast
  from a b req have "serve (req # reqs) st = apply_ops (ops1 @ ops2) st"
    by (simp add: apply_ops_append)
  then show ?case by blast
qed

text \<open>
  The transcript the orchestrator leaves, at every point where it can stop: after the
  first request fails, after an answer without invocations, after the invocation fails,
  after the second request fails, and after the final answer.
\<close>

lemma runAgent_transcript:
  assumes client: "GROQ_API_KEY env \<or> groqClient st"
  shows "History (snd (runAgent env m st)) =
     History st @
       (case create env (History st @ [User m]) True of
          Inl e \<Rightarrow> [User m]
        | Inr message \<Rightarrow>
            (case tool_calls message of
               [] \<Rightarrow> User m # (if truthy (content message)
                               then [Assistant (content message) []] else [])
             | toolCall # others \<Rightarrow>
                 (case invoke env toolCall of
                    Inl e \<Rightarrow> [User m]
                  | Inr result \<Rightarrow>
                      [User m, Assistant (content message) (toolCall # others),
                       Tool (call_id toolCall) result] @
                      (case create env
                              (History st @
                                 [User m, Assistant (content message) (toolCall # others),
                                  Tool (call_id toolCall) result]) False of
                         Inl e \<Rightarrow> []
                       | Inr finalMessage \<Rightarrow>
                           if truthy (content finalMessage)
                           then [Assistant (content finalMessage) []] else []))))"
  by (simp add: runAgent_def getGroqClient_ok [OF client] request_def execute_def push_def
      split: sum.split list.split)

lemma chatHandler_agent_History:
  assumes key: "GROQ_API_KEY env" and body: "message_field body = Some (JStr m)"
    and nonempty: "m \<noteq> []"
  shows "History (snd (chatHandler env body st)) = History (snd (runAgent env m st))"
proof -
  obtain r st' where ra: "runAgent env m st = (r, st')" by (cases "runAgent env m st")
  show ?thesis
  proof (cases r)
    case (Inr result)
    with key body nonempty ra show ?thesis by (simp add: chatHandler_def)
  next
    case (Inl err)
    have "History (snd (runOfflineDemo env m st')) = History st'"
      by (rule runOfflineDemo_History)
    with key body nonempty ra Inl show ?thesis
      by (cases "runOfflineDemo env m st'") (auto simp: chatHandler_def split: sum.split)
  qed
qed

lemma chatHandler_offline_History:
  assumes "\<not> GROQ_API_KEY env"
  shows "History (snd (chatHandler env body st)) = History st"
proof (cases "\<exists>message. message_field body = Some (JStr message) \<and> message \<noteq> []")
  case False
  have "snd (chatHandler env body st) = st"
  proof (cases "message_field body")
    case None
    then show ?thesis by (simp add: chatHandler_def)
  next
    case (Some v)
    with False show ?thesis by (cases v) (auto simp: chatHandler_def)
  qed
  then show ?thesis by simp
next
  case True
  then obtain message where m: "message_field body = Some (JStr message)" "message \<noteq> []"
    by blast
  have "History (snd (chatHandler env body st)) = History (snd (runOfflineDemo env message st))"
    using m assms
    by (cases "runOfflineDemo env message st") (auto simp: chatHandler_def split: sum.split)
  then show ?thesis by (simp add: runOfflineDemo_History)
qed

lemma chatHandler_transcript:
  assumes key: "GROQ_API_KEY env" and body: "message_field body = Some (JStr m)"
    and nonempty: "m \<noteq> []"
  shows "History (snd (chatHandler env body st)) =
     History st @
       (case create env (History st @ [User m]) True of
          Inl e \<Rightarrow> [User m]
        | Inr message \<Rightarrow>
            (case tool_calls message of
               [] \<Rightarrow> User m # (if truthy (content message)
                               then [Assistant (content message) []] else [])
             | toolCall # others \<Rightarrow>
                 (case invoke env toolCall of
                    Inl e \<Rightarrow> [User m]
                  | Inr result \<Rightarrow>
                      [User m, Assistant (content message) (toolCall # others),
                       Tool (call_id toolCall) result] @
                      (case create env
                              (History st @
                                 [User m, Assistant (content message) (toolCall # others),
                                  Tool (call_id toolCall) result]) False of
                         Inl e \<Rightarrow> []
                       | Inr finalMessage \<Rightarrow>
                           if truthy (content finalMessage)
                           then [Assistant (content finalMessage) []] else []))))"
proof -
  from key have client: "GROQ_API_KEY env \<or> groqClient st" by simp
  show ?thesis
    unfolding chatHandler_agent_History [OF key body nonempty]
    by (rule runAgent_transcript [OF client])
qed

text \<open>
  Claim C2. The transcript starts as the system instruction alone. Every sequence of
  steps leaves the transcript it found, followed by the messages it pushed, in order:
  nothing is removed, reordered or rewritten, and the first entry stays the system
  instruction. Every run of the handler and every sequence of runs is such a sequence of
  steps. Without a key, or without a message in the body, the handler leaves the
  transcript as it is. With a key and a message, it leaves the transcript of the
  orchestrator, also when the orchestrator failed and the offline responder answered:
  the user message alone when the first request or the invocation failed, and the user
  message, the assistant's request and the tool message when the second request failed.
  Nothing is rolled back.
\<close>

theorem transcript_append_only:
  "History initial = [System system_instruction] \<and>
   History (apply_ops ops st) = History st @ pushed ops \<and>
   (\<exists>ops'. snd (chatHandler env body st) = apply_ops ops' st) \<and>
   (\<exists>ops'. serve reqs st = apply_ops ops' st) \<and>
   (\<exists>rest. History (serve reqs initial) = System system_instruction # rest) \<and>
   prefix (History st) (History (serve reqs st)) \<and>
   prefix (History st) (History (snd (chatHandler env body st))) \<and>
   (\<not> GROQ_API_KEY env \<longrightarrow> History (snd (chatHandler env body st)) = History st) \<and>
   ((\<forall>s. message_field body = Some (JStr s) \<longrightarrow> s = []) \<longrightarrow>
      History (snd (chatHandler env body st)) = History st) \<and>
   (GROQ_API_KEY env \<longrightarrow> message_field body = Some (JStr m) \<longrightarrow> m \<noteq> [] \<longrightarrow>
      History (snd (chatHandler env body st)) =
        History st @
          (case create env (History st @ [User m]) True of
             Inl e \<Rightarrow> [User m]
           | Inr message \<Rightarrow>
               (case tool_calls message of
                  [] \<Rightarrow> User m # (if truthy (content message)
                                  then [Assistant (content message) []] else [])
                | toolCall # others \<Rightarrow>
                    (case invoke env toolCall of
                       Inl e \<Rightarrow> [User m]
                     | Inr result \<Rightarrow>
                         [User m, Assistant (content message) (toolCall # others),
                          Tool (call_id toolCall) result] @
                         (case create env
                                 (History st @
                                    [User m, Assistant (content message) (toolCall # others),
                                     Tool (call_id toolCall) result]) False of
                            Inl e \<Rightarrow> []
                          | Inr finalMessage \<Rightarrow>
                              if truthy (content finalMessage)
                              then [Assistant (content finalMessage) []] else [])))))"
proof -
  have start: "History initial = [System system_instruction]" by (simp add: initial_def)
  have ops: "History (apply_ops ops st) = History st @ pushed ops"
    by (rule apply_ops_History)
  from serve_ops [of reqs initial] obtain ops1 where "serve reqs initial = apply_ops ops1 initial"
    by blast
  then have first: "\<exists>rest. History (serve reqs initial) = System system_instruction # rest"
    by (simp add: apply_ops_History start)
  from serve_ops [of reqs st] obtain ops2 where "serve reqs st = apply_ops ops2 st" by blast
  then have all: "prefix (History st) (History (serve reqs st))"
    by (simp add: apply_ops_History)
  from chatHandler_ops [of env body st] obtain ops3 where
    "snd (chatHandler env body st) = apply_ops ops3 st" by blast
  then have one: "prefix (History st) (History (snd (chatHandler env body st)))"
    by (simp add: apply_ops_History)
  have offline: "\<not> GROQ_API_KEY env \<longrightarrow> History (snd (chatHandler env body st)) = History st"
    using chatHandler_offline_History [of env body st] by blast
  have invalid: "(\<forall>s. message_field body = Some (JStr s) \<longrightarrow> s = []) \<longrightarrow>
      History (snd (chatHandler env body st)) = History st"
    using chatHandler_invalid [of body env st] by simp
  from start ops chatHandler_ops [of env body st] serve_ops [of reqs st] first all one offline
    invalid chatHandler_transcript [of env body m st]
  show ?thesis by blast
qed

lemma second_round_down_simps:
  "GROQ_API_KEY second_round_down"
  "create second_round_down h True = Inr \<lparr>content = None, tool_calls = [sum_call, prime_call]\<rparr>"
  "create second_round_down h False = Inl (Error ''Connection error.'')"
  "invoke second_round_down sum_call = Inr ''5''"
  by (simp_all add: second_round_down_def)

lemma tool_down_simps:
  "GROQ_API_KEY tool_down"
  "create tool_down h True = Inr \<lparr>content = None, tool_calls = [sum_call, prime_call]\<rparr>"
  "invoke tool_down c = Inl (Error ''tool failed'')"
  by (simp_all add: tool_down_def)

lemma tool_provider_simps:
  "GROQ_API_KEY tool_provider"
  "create tool_provider h True = Inr \<lparr>content = None, tool_calls = [sum_call, prime_call]\<rparr>"
  "create tool_provider h False = Inr \<lparr>content = Some ''2 + 3 = 5'', tool_calls = []\<rparr>"
  "invoke tool_provider sum_call = Inr ''5''"
  by (simp_all add: tool_provider_def)

theorem transcript_append_only_witness:
  "GROQ_API_KEY second_round_down \<and> GROQ_API_KEY tool_down \<and> \<not> GROQ_API_KEY no_network \<and>
   message_field (chat_body ''What is 2 + 3?'') = Some (JStr ''What is 2 + 3?'') \<and>
   ''What is 2 + 3?'' \<noteq> [] \<and>
   fst (runAgent second_round_down ''What is 2 + 3?'' initial) = Inl (Error ''Connection error.'') \<and>
   History (snd (chatHandler second_round_down (chat_body ''What is 2 + 3?'') initial)) =
     [System system_instruction, User ''What is 2 + 3?'',
      Assistant None [sum_call, prime_call], Tool ''call_1'' ''5''] \<and>
   History (serve [(second_round_down, chat_body ''What is 2 + 3?''),
                   (tool_provider, chat_body ''What is 2 + 3?'')] initial) =
     [System system_instruction, User ''What is 2 + 3?'',
      Assistant None [sum_call, prime_call], Tool ''call_1'' ''5'',
      User ''What is 2 + 3?'', Assistant None [sum_call, prime_call], Tool ''call_1'' ''5'',
      Assistant (Some ''2 + 3 = 5'') []] \<and>
   fst (runAgent tool_down ''What is 2 + 3?'' initial) = Inl (Error ''tool failed'') \<and>
   History (snd (chatHandler tool_down (chat_body ''What is 2 + 3?'') initial)) =
     [System system_instruction, User ''What is 2 + 3?''] \<and>
   History (snd (chatHandler no_network (chat_body ''What is 2 + 3?'') initial)) =
     [System system_instruction] \<and>
   History (apply_ops [Push (User ''a''), Request tool_down True, Push (User ''b'')] initial) =
     [System system_instruction, User ''a'', User ''b'']"
proof -
  let ?m = "''What is 2 + 3?''"
  let ?st1 = "snd (chatHandler second_round_down (chat_body ?m) initial)"
  have k: "GROQ_API_KEY second_round_down \<or> groqClient initial"
    "GROQ_API_KEY tool_down \<or> groqClient initial"
    by (simp_all add: second_round_down_simps tool_down_simps)
  have b: "message_field (chat_body ?m) = Some (JStr ?m)"
    by (simp add: chat_body_def message_field_def)
  have n: "call_id sum_call = ''call_1''" by (simp add: sum_call_def)
  have h: "History initial = [System system_instruction]" by (simp add: initial_def)
  have f1: "fst (runAgent second_round_down ?m initial) = Inl (Error ''Connection error.'')"
    by (simp add: runAgent_def getGroqClient_ok [OF k(1)] request_def execute_def push_def
        second_round_down_simps)
  have f2: "fst (runAgent tool_down ?m initial) = Inl (Error ''tool failed'')"
    by (simp add: runAgent_def getGroqClient_ok [OF k(2)] request_def execute_def push_def
        tool_down_simps)
  have nk: "\<not> GROQ_API_KEY no_network" by (simp add: no_network_def)
  from transcript_append_only [of "[]" initial second_round_down "chat_body ?m" "[]" ?m]
  have a: "History ?st1 =
     [System system_instruction, User ?m, Assistant None [sum_call, prime_call],
      Tool ''call_1'' ''5'']"
    by (simp add: b second_round_down_simps h n)
  from transcript_append_only [of "[]" ?st1 tool_provider "chat_body ?m" "[]" ?m]
  have "History (snd (chatHandler tool_provider (chat_body ?m) ?st1)) =
     History ?st1 @ [User ?m, Assistant None [sum_call, prime_call], Tool ''call_1'' ''5'',
      Assistant (Some ''2 + 3 = 5'') []]"
    by (simp add: b tool_provider_simps n truthy_def)
  then have s: "History (serve [(second_round_down, chat_body ?m),
                   (tool_provider, chat_body ?m)] initial) =
     [System system_instruction, User ?m, Assistant None [sum_call, prime_call],
      Tool ''call_1'' ''5'', User ?m, Assistant None [sum_call, prime_call],
      Tool ''call_1'' ''5'', Assistant (Some ''2 + 3 = 5'') []]"
    by (simp add: a)
  from transcript_append_only [of "[]" initial tool_down "chat_body ?m" "[]" ?m]
  have c: "History (snd (chatHandler tool_down (chat_body ?m) initial)) =
     [System system_instruction, User ?m]"
    by (simp add: b tool_down_simps h)
  from transcript_append_only [of "[]" initial no_network "chat_body ?m" "[]" ?m] nk
  have d: "History (snd (chatHandler no_network (chat_body ?m) initial)) =
     [System system_instruction]"
    by (simp add: h)
  from transcript_append_only
    [of "[Push (User ''a''), Request tool_down True, Push (User ''b'')]" initial
        no_network "chat_body ?m" "[]" ?m]
  have o: "History (apply_ops [Push (User ''a''), Request tool_down True, Push (User ''b'')]
       initial) = [System system_instruction, User ''a'', User ''b'']"
    by (simp add: h del: apply_ops.simps)
  from a s c d o f1 f2 b nk show ?thesis
    by (simp add: second_round_down_simps tool_down_simps del: apply_ops.simps serve.simps)
qed

end
